theory Spec2Isabelle
  imports Main
begin

section \<open>Cells and the string primitives the cleaner calls\<close>

text \<open>
  The cleaner of \<^verbatim>\<open>streamlit_app.py\<close> annotates every cell it touches as \<^verbatim>\<open>str\<close>
  (\<^verbatim>\<open>phone: str\<close>, \<^verbatim>\<open>date_str: str\<close>, \<^verbatim>\<open>age: str\<close>) and guards each with
  \<^verbatim>\<open>pd.isna\<close>/\<^verbatim>\<open>pd.notna\<close>. A cell is therefore a string or pandas' missing value:
  \<open>None\<close> is the missing value (NaN, or Python's \<^verbatim>\<open>None\<close> for the defaulted \<^verbatim>\<open>age\<close>),
  \<open>Some s\<close> a string. Characters are 8-bit, so the character classes of Python
  (\<^verbatim>\<open>\d\<close>, \<^verbatim>\<open>\s\<close>, \<^verbatim>\<open>str.isdigit\<close>, \<^verbatim>\<open>str.strip\<close>, \<^verbatim>\<open>str.lower\<close>) are
  their ASCII parts.
\<close>

type_synonym cell = "string option"

definition is_digit :: "char \<Rightarrow> bool" where
  "is_digit c = (c \<in> set ''0123456789'')"

text \<open>Whitespace of \<^verbatim>\<open>str.strip()\<close> and of \<^verbatim>\<open>\s\<close>: tab, line feed, vertical tab,
  form feed, carriage return, the four separators 0x1C..0x1F and the space.\<close>

definition is_space :: "char \<Rightarrow> bool" where
  "is_space c = (of_char c \<in> {9::nat, 10, 11, 12, 13, 28, 29, 30, 31, 32})"

definition strip :: "string \<Rightarrow> string" where
  "strip s = rev (dropWhile is_space (rev (dropWhile is_space s)))"

definition lower_char :: "char \<Rightarrow> char" where
  "lower_char c =
     (case map_of (zip ''ABCDEFGHIJKLMNOPQRSTUVWXYZ'' ''abcdefghijklmnopqrstuvwxyz'') c of
        Some l \<Rightarrow> l
      | None \<Rightarrow> c)"

definition lower :: "string \<Rightarrow> string" where
  "lower s = map lower_char s"

definition upper_char :: "char \<Rightarrow> char" where
  "upper_char c =
     (case map_of (zip ''abcdefghijklmnopqrstuvwxyz'' ''ABCDEFGHIJKLMNOPQRSTUVWXYZ'') c of
        Some u \<Rightarrow> u
      | None \<Rightarrow> c)"

text \<open>\<^verbatim>\<open>s.isdigit()\<close>: non-empty and digits only.\<close>

definition isdigit :: "string \<Rightarrow> bool" where
  "isdigit s = (s \<noteq> [] \<and> list_all is_digit s)"

definition digit_val :: "char \<Rightarrow> nat" where
  "digit_val c = of_char c - 48"

text \<open>\<^verbatim>\<open>int(s)\<close> on a string of digits (the only strings the cleaner converts).\<close>

definition int_of_digits :: "string \<Rightarrow> nat" where
  "int_of_digits s = foldl (\<lambda>acc c. 10 * acc + digit_val c) 0 s"

text \<open>\<^verbatim>\<open>needle in hay\<close> on strings.\<close>

fun starts_with :: "string \<Rightarrow> string \<Rightarrow> bool" where
  "starts_with [] s = True"
| "starts_with (c # cs) [] = False"
| "starts_with (c # cs) (x # xs) = (c = x \<and> starts_with cs xs)"

fun str_contains :: "string \<Rightarrow> string \<Rightarrow> bool" where
  "str_contains needle [] = (needle = [])"
| "str_contains needle (x # xs) = (starts_with needle (x # xs) \<or> str_contains needle xs)"


section \<open>Phone cleaning\<close>

text \<open>\<^verbatim>\<open>re.sub(r'\D', '', s)\<close>: every character that is not a digit is replaced by
  nothing, scanning left to right.\<close>

fun re_sub_non_digit :: "string \<Rightarrow> string" where
  "re_sub_non_digit [] = []"
| "re_sub_non_digit (c # cs) =
     (if is_digit c then c # re_sub_non_digit cs else re_sub_non_digit cs)"

text \<open>\<^verbatim>\<open>return re.sub(r'\D', '', str(phone)) if pd.notna(phone) and phone else ""\<close>\<close>

definition clean_phone :: "cell \<Rightarrow> string" where
  "clean_phone phone =
     (case phone of
        None \<Rightarrow> ''''
      | Some p \<Rightarrow> if p \<noteq> [] then re_sub_non_digit p else '''')"


section \<open>Dates\<close>

subsection \<open>Timestamps\<close>

record timestamp =
  ts_year :: int
  ts_month :: nat
  ts_day :: nat

definition is_leap :: "int \<Rightarrow> bool" where
  "is_leap y = (y mod 4 = 0 \<and> (y mod 100 \<noteq> 0 \<or> y mod 400 = 0))"

definition days_in_month :: "int \<Rightarrow> nat \<Rightarrow> nat" where
  "days_in_month y m =
     (if m = 2 then (if is_leap y then 29 else 28)
      else if m \<in> {4, 6, 9, 11} then 30
      else 31)"

text \<open>
  A \<^verbatim>\<open>pd.Timestamp\<close> holds nanoseconds in 64 bits: \<^verbatim>\<open>Timestamp.min\<close> is
  1677-09-21 00:12:43 and \<^verbatim>\<open>Timestamp.max\<close> is 2262-04-11 23:47:16, so the midnights
  it can hold run from 1677-09-22 to 2262-04-11. Outside them pandas raises
  \<^verbatim>\<open>OutOfBoundsDatetime\<close>, a \<^verbatim>\<open>ValueError\<close>.
\<close>

definition in_bounds :: "int \<Rightarrow> nat \<Rightarrow> nat \<Rightarrow> bool" where
  "in_bounds y m d =
     ((1677 < y \<or> (y = 1677 \<and> (9 < m \<or> (m = 9 \<and> 22 \<le> d)))) \<and>
      (y < 2262 \<or> (y = 2262 \<and> (m < 4 \<or> (m = 4 \<and> d \<le> 11)))))"

definition valid_ymd :: "int \<Rightarrow> nat \<Rightarrow> nat \<Rightarrow> bool" where
  "valid_ymd y m d =
     (1 \<le> m \<and> m \<le> 12 \<and> 1 \<le> d \<and> d \<le> days_in_month y m \<and> in_bounds y m d)"

text \<open>\<^verbatim>\<open>pd.Timestamp(year=y, month=m, day=d)\<close>; \<open>None\<close> is the \<^verbatim>\<open>ValueError\<close>.\<close>

definition Timestamp :: "int \<Rightarrow> nat \<Rightarrow> nat \<Rightarrow> timestamp option" where
  "Timestamp y m d =
     (if valid_ymd y m d then Some \<lparr>ts_year = y, ts_month = m, ts_day = d\<rparr> else None)"

text \<open>The last decimal digit of a number, as a character.\<close>

definition digit_char :: "nat \<Rightarrow> char" where
  "digit_char n = ''0123456789'' ! (n mod 10)"

definition pad2 :: "nat \<Rightarrow> string" where
  "pad2 n = [digit_char (n div 10), digit_char n]"

definition pad4 :: "nat \<Rightarrow> string" where
  "pad4 n = [digit_char (n div 1000), digit_char (n div 100), digit_char (n div 10), digit_char n]"

text \<open>\<^verbatim>\<open>date_obj.strftime("%m-%d-%Y")\<close>\<close>

definition strftime :: "timestamp \<Rightarrow> string" where
  "strftime t = pad2 (ts_month t) @ ''-'' @ pad2 (ts_day t) @ ''-'' @ pad4 (nat (ts_year t))"


subsection \<open>Parsing with a format: \<^verbatim>\<open>pd.to_datetime(s, format=fmt)\<close>\<close>

text \<open>
  pandas turns the format into a regular expression as Python's \<^verbatim>\<open>_strptime\<close> does:
  a directive becomes a named group, white space becomes \<^verbatim>\<open>\s+\<close>, any other
  character stands for itself. The expression is matched at the start of the string
  (\<^verbatim>\<open>re.match\<close>, case-insensitive); the first match in backtracking order is taken and
  must end where the string ends.
\<close>

datatype fmt_item = Directive char | Whitespace | Literal char

fun compile_format :: "string \<Rightarrow> fmt_item list" where
  "compile_format [] = []"
| "compile_format [c] = [if is_space c then Whitespace else Literal c]"
| "compile_format (c # d # rest) =
     (if c = CHR ''%'' then Directive d # compile_format rest
      else (if is_space c then Whitespace else Literal c) # compile_format (d # rest))"

text \<open>One alternative of a group is a sequence of character classes; a class is the
  string of its members.\<close>

fun match_classes :: "string list \<Rightarrow> string \<Rightarrow> (string \<times> string) option" where
  "match_classes [] s = Some ([], s)"
| "match_classes (cl # cls) [] = None"
| "match_classes (cl # cls) (x # xs) =
     (if x \<in> set cl
      then (case match_classes cls xs of
              None \<Rightarrow> None
            | Some (tok, r) \<Rightarrow> Some (x # tok, r))
      else None)"

definition word_classes :: "string \<Rightarrow> string list" where
  "word_classes w = map (\<lambda>c. [c, upper_char c]) w"

definition month_names :: "string list" where
  "month_names = [''january'', ''february'', ''march'', ''april'', ''may'', ''june'', ''july'',
     ''august'', ''september'', ''october'', ''november'', ''december'']"

definition month_abbrs :: "string list" where
  "month_abbrs = map (take 3) month_names"

text \<open>
  The groups of the directives the cleaner uses, alternatives in the order of the
  expression:
  \<^verbatim>\<open>%m  1[0-2]|0[1-9]|[1-9]\<close>,
  \<^verbatim>\<open>%d  3[0-1]|[1-2]\d|0[1-9]|[1-9]| [1-9]\<close>,
  \<^verbatim>\<open>%Y  \d\d\d\d\<close>, \<^verbatim>\<open>%y  \d\d\<close>,
  \<^verbatim>\<open>%B\<close> and \<^verbatim>\<open>%b\<close> the month names, longest first. Any other directive has
  no alternative here.
\<close>

definition directive_alts :: "char \<Rightarrow> string list list" where
  "directive_alts d =
     (if d = CHR ''m'' then [[''1'', ''012''], [''0'', ''123456789''], [''123456789'']]
      else if d = CHR ''d'' then
        [[''3'', ''01''], [''12'', ''0123456789''], [''0'', ''123456789''], [''123456789''],
         ['' '', ''123456789'']]
      else if d = CHR ''Y'' then [[''0123456789'', ''0123456789'', ''0123456789'', ''0123456789'']]
      else if d = CHR ''y'' then [[''0123456789'', ''0123456789'']]
      else if d = CHR ''B'' then
        map word_classes [''september'', ''february'', ''november'', ''december'', ''january'',
          ''october'', ''august'', ''march'', ''april'', ''june'', ''july'', ''may'']
      else if d = CHR ''b'' then map word_classes month_abbrs
      else [])"

text \<open>The ways \<^verbatim>\<open>\s+\<close> can match at the start of a string, longest first: what is
  left after each.\<close>

fun ws_rests :: "string \<Rightarrow> string list" where
  "ws_rests [] = []"
| "ws_rests (x # xs) = (if is_space x then ws_rests xs @ [xs] else [])"

type_synonym groups = "(char \<times> string) list"

text \<open>All matches of the compiled format at the start of the string, in backtracking
  order, each with the text it leaves.\<close>

fun re_match :: "fmt_item list \<Rightarrow> string \<Rightarrow> (groups \<times> string) list" where
  "re_match [] s = [([], s)]"
| "re_match (Literal c # its) s =
     (case s of [] \<Rightarrow> [] | x # xs \<Rightarrow> if x = c then re_match its xs else [])"
| "re_match (Whitespace # its) s = concat (map (\<lambda>r. re_match its r) (ws_rests s))"
| "re_match (Directive d # its) s =
     concat (map (\<lambda>alt. case match_classes alt s of
                           None \<Rightarrow> []
                         | Some (tok, r) \<Rightarrow> map (\<lambda>(g, e). ((d, tok) # g, e)) (re_match its r))
                 (directive_alts d))"

text \<open>The position of a month name, from 1; 0 when it is none.\<close>

fun index_of :: "string \<Rightarrow> string list \<Rightarrow> nat" where
  "index_of w [] = 0"
| "index_of w (n # ns) = (if w = n then 1 else (case index_of w ns of 0 \<Rightarrow> 0 | Suc k \<Rightarrow> Suc (Suc k)))"

text \<open>
  The fields read from the groups. \<^verbatim>\<open>%y\<close> gives a year at once, by the POSIX rule of
  \<^verbatim>\<open>strptime\<close>: 00..68 are 2000..2068 and 69..99 are 1969..1999. Year, month and day
  start from 1900, 1, 1.
\<close>

definition century_of_y :: "nat \<Rightarrow> int" where
  "century_of_y yy = (if yy \<le> 68 then 2000 + int yy else 1900 + int yy)"

definition read_group :: "int \<times> nat \<times> nat \<Rightarrow> char \<times> string \<Rightarrow> int \<times> nat \<times> nat" where
  "read_group f kt =
     (case (f, kt) of ((y, m, d), (k, tok)) \<Rightarrow>
        if k = CHR ''y'' then (century_of_y (int_of_digits tok), m, d)
        else if k = CHR ''Y'' then (int (int_of_digits tok), m, d)
        else if k = CHR ''m'' then (y, int_of_digits tok, d)
        else if k = CHR ''B'' then (y, index_of (lower tok) month_names, d)
        else if k = CHR ''b'' then (y, index_of (lower tok) month_abbrs, d)
        else if k = CHR ''d'' then (y, m, int_of_digits (strip tok))
        else (y, m, d))"

definition fields_of :: "groups \<Rightarrow> int \<times> nat \<times> nat" where
  "fields_of g = foldl read_group (1900, 1, 1) g"

text \<open>The groups of the first match, when it ends where the string ends.\<close>

definition strptime_groups :: "string \<Rightarrow> string \<Rightarrow> groups option" where
  "strptime_groups s fmt =
     (case re_match (compile_format fmt) s of
        [] \<Rightarrow> None
      | (g, rest) # _ \<Rightarrow> if rest \<noteq> [] then None else Some g)"

text \<open>\<^verbatim>\<open>pd.to_datetime(s, format=fmt)\<close>; \<open>None\<close> is the \<^verbatim>\<open>ValueError\<close> raised when
  the string does not match, when text remains, or when the date does not exist or is
  out of bounds.\<close>

definition to_datetime_format :: "string \<Rightarrow> string \<Rightarrow> timestamp option" where
  "to_datetime_format s fmt =
     (case strptime_groups s fmt of
        None \<Rightarrow> None
      | Some g \<Rightarrow> (case fields_of g of (y, m, d) \<Rightarrow> Timestamp y m d))"


subsection \<open>\<^verbatim>\<open>OptimizedCSVCleaner.format_date\<close>\<close>

definition date_formats :: "string list" where
  "date_formats = [''%m/%d/%Y'', ''%m-%d-%Y'', ''%Y-%m-%d'', ''%Y/%m/%d'', ''%d/%m/%Y'',
     ''%d-%m-%Y'', ''%B %d, %Y'', ''%b %d, %Y'', ''%m.%d.%Y'']"

definition two_digit_formats :: "string list" where
  "two_digit_formats = [''%m/%d/%y'', ''%m-%d-%y'', ''%m.%d.%y'']"

text \<open>The first loop: the first format that parses wins.\<close>

fun try_formats :: "string \<Rightarrow> string list \<Rightarrow> timestamp option" where
  "try_formats s [] = None"
| "try_formats s (fmt # fmts) =
     (case to_datetime_format s fmt of
        Some date_obj \<Rightarrow> Some date_obj
      | None \<Rightarrow> try_formats s fmts)"

text \<open>\<^verbatim>\<open>age and str(age).strip() and str(age).strip().isdigit()\<close>. A missing age is
  \<^verbatim>\<open>None\<close> (false) or NaN, whose text \<^verbatim>\<open>nan\<close> is no digit string.\<close>

definition age_is_numeric :: "cell \<Rightarrow> bool" where
  "age_is_numeric age =
     (case age of
        None \<Rightarrow> False
      | Some a \<Rightarrow> a \<noteq> [] \<and> strip a \<noteq> [] \<and> isdigit (strip a))"

text \<open>
  The century branch of the second loop, on \<^verbatim>\<open>year = temp_date.year\<close>:
  \<^verbatim>\<open>
  if age and ...isdigit():
      age_num = int(str(age).strip())
      current_year = pd.Timestamp.now().year
      birth_year_estimate = current_year - age_num
      if year < 50:
          if birth_year_estimate >= 2000: year = 2000 + (year - 2000)
          else:                           year = 1900 + year
      else:
          year = 1900 + (year - 1900)
  else:
      if year < 50: year = 2000 + year
  \<close>
  The clock is the parameter \<open>current_year\<close>.
\<close>

definition resolve_year :: "int \<Rightarrow> cell \<Rightarrow> int \<Rightarrow> int" where
  "resolve_year current_year age year =
     (if age_is_numeric age then
        (let age_num = (case age of None \<Rightarrow> 0 | Some a \<Rightarrow> int (int_of_digits (strip a)));
             birth_year_estimate = current_year - age_num
         in if year < 50 then
              (if birth_year_estimate \<ge> 2000 then 2000 + (year - 2000) else 1900 + year)
            else 1900 + (year - 1900))
      else (if year < 50 then 2000 + year else year))"

text \<open>The second loop: a format that does not parse, or whose rebuilt
  \<^verbatim>\<open>pd.Timestamp(year=year, month=month, day=day)\<close> raises, is skipped.\<close>

fun try_two_digit :: "int \<Rightarrow> string \<Rightarrow> cell \<Rightarrow> string list \<Rightarrow> timestamp option" where
  "try_two_digit current_year s age [] = None"
| "try_two_digit current_year s age (fmt # fmts) =
     (case to_datetime_format s fmt of
        None \<Rightarrow> try_two_digit current_year s age fmts
      | Some temp_date \<Rightarrow>
          (case Timestamp (resolve_year current_year age (ts_year temp_date))
                  (ts_month temp_date) (ts_day temp_date) of
             None \<Rightarrow> try_two_digit current_year s age fmts
           | Some date_obj \<Rightarrow> Some date_obj))"

text \<open>
  \<open>format_date\<close>. The free-form parse \<^verbatim>\<open>pd.to_datetime(date_str, errors='coerce')\<close>
  is the parameter \<open>to_datetime_coerce\<close>: \<open>None\<close> is \<^verbatim>\<open>NaT\<close>, and also an
  exception, which the outer \<^verbatim>\<open>except Exception\<close> answers with the same
  \<^verbatim>\<open>str(date_str)\<close>. At that point \<^verbatim>\<open>date_str\<close> is the stripped string.
  The parameter is the library call as it answers at the moment of the call; the clock
  that the library reads while it parses is made explicit in \<open>format_date_at\<close> below.
\<close>

definition format_date ::
  "(string \<Rightarrow> timestamp option) \<Rightarrow> int \<Rightarrow> cell \<Rightarrow> cell \<Rightarrow> string" where
  "format_date to_datetime_coerce current_year date_str age =
     (case date_str of
        None \<Rightarrow> ''''
      | Some raw \<Rightarrow>
          if raw = [] \<or> strip raw = [] then ''''
          else
            (let s = strip raw in
             case try_formats s date_formats of
               Some date_obj \<Rightarrow> strftime date_obj
             | None \<Rightarrow>
                 (case try_two_digit current_year s age two_digit_formats of
                    Some date_obj \<Rightarrow> strftime date_obj
                  | None \<Rightarrow>
                      (case to_datetime_coerce s of
                         Some date_obj \<Rightarrow> strftime date_obj
                       | None \<Rightarrow> s))))"


subsection \<open>The century rule as the specification words it\<close>

text \<open>
  The specification's rule for a two-digit year \<open>yy\<close> on a row with a numeric age:
  below 50 the year is \<open>2000 + yy\<close> when the estimated birth year
  \<open>current_year - age\<close> is at least 2000 and \<open>1900 + yy\<close> otherwise; from 50 on it is
  \<open>1900 + yy\<close>. It is stated here to be compared with \<open>format_date\<close>.
\<close>

definition spec_century :: "int \<Rightarrow> int \<Rightarrow> nat \<Rightarrow> int" where
  "spec_century current_year age_num yy =
     (if yy < 50 then (if current_year - age_num \<ge> 2000 then 2000 + int yy else 1900 + int yy)
      else 1900 + int yy)"

text \<open>The first format of a list that parses the string, with the groups of its match
  and the timestamp pandas returns for it.\<close>

fun first_parse :: "string \<Rightarrow> string list \<Rightarrow> (groups \<times> timestamp) option" where
  "first_parse s [] = None"
| "first_parse s (fmt # fmts) =
     (case strptime_groups s fmt of
        None \<Rightarrow> first_parse s fmts
      | Some g \<Rightarrow>
          (case to_datetime_format s fmt of
             None \<Rightarrow> first_parse s fmts
           | Some t \<Rightarrow> Some (g, t)))"

text \<open>The raw two-digit year of a match: the number the group \<^verbatim>\<open>%y\<close> read.\<close>

definition raw_two_digit_year :: "groups \<Rightarrow> nat" where
  "raw_two_digit_year g = (case map_of g (CHR ''y'') of None \<Rightarrow> 0 | Some tok \<Rightarrow> int_of_digits tok)"

text \<open>An instance of the free-form parse, used at concrete inputs: the parser that
  recognises no string.\<close>

definition coerce_nothing :: "string \<Rightarrow> timestamp option" where
  "coerce_nothing s = None"


subsection \<open>The two reads of the clock\<close>

text \<open>
  \<open>format_date\<close> reads the clock in two places. One is written in the source:
  \<^verbatim>\<open>pd.Timestamp.now().year\<close> in the century branch. The other is inside the library:
  \<^verbatim>\<open>pd.to_datetime(date_str, errors='coerce')\<close> takes only the string, but while it
  parses it consults the current time (the words \<^verbatim>\<open>today\<close> and \<^verbatim>\<open>now\<close> parse to the
  current timestamp, and a two-digit year is completed to the century that puts it
  within fifty years of the current year). A run of \<open>format_date\<close> at the clock \<open>now\<close>
  therefore hands \<open>now\<close> to both: the free-form parse \<open>to_datetime\<close> is a function of
  the clock and the string, and the current year is the year of \<open>now\<close>. The clock is
  kept as a date, which is all that \<^verbatim>\<open>strftime("%m-%d-%Y")\<close> prints of it.
\<close>

definition format_date_at ::
  "(timestamp \<Rightarrow> string \<Rightarrow> timestamp option) \<Rightarrow> timestamp \<Rightarrow> cell \<Rightarrow> cell \<Rightarrow> string" where
  "format_date_at to_datetime now date_str age =
     format_date (to_datetime now) (ts_year now) date_str age"

text \<open>An instance of the free-form parse that reads the clock, used at concrete inputs:
  the two words that pandas answers with the current timestamp before any other parsing
  (\<^verbatim>\<open>parse_today_now\<close> in \<^verbatim>\<open>tslib\<close>); every other string is left unparsed.\<close>

definition parse_today_now :: "timestamp \<Rightarrow> string \<Rightarrow> timestamp option" where
  "parse_today_now now val = (if val = ''now'' \<or> val = ''today'' then Some now else None)"


section \<open>The table\<close>

text \<open>
  A \<^verbatim>\<open>DataFrame\<close> as the cleaner uses it: a row index, which \<^verbatim>\<open>pd.read_csv\<close>
  makes the range \<open>0..<nrows\<close>, and the columns in their order, each a label with its
  cells. The table is rectangular when every column has \<open>nrows\<close> cells.
\<close>

record dataframe =
  nrows :: nat
  columns :: "(string \<times> cell list) list"

definition labels :: "dataframe \<Rightarrow> string list" where
  "labels df = map fst (columns df)"

definition wf_frame :: "dataframe \<Rightarrow> bool" where
  "wf_frame df = list_all (\<lambda>(c, vs). length vs = nrows df) (columns df)"

text \<open>\<^verbatim>\<open>c in df.columns\<close>\<close>

definition has_column :: "dataframe \<Rightarrow> string \<Rightarrow> bool" where
  "has_column df c = (c \<in> set (labels df))"

text \<open>\<^verbatim>\<open>df[c]\<close>, read where the column is known to exist.\<close>

definition column_values :: "dataframe \<Rightarrow> string \<Rightarrow> cell list" where
  "column_values df c = (case map_of (columns df) c of None \<Rightarrow> [] | Some vs \<Rightarrow> vs)"

text \<open>\<^verbatim>\<open>df[c] = vs\<close>: an existing column keeps its place, a new one goes last.\<close>

fun assign :: "string \<Rightarrow> cell list \<Rightarrow> (string \<times> cell list) list \<Rightarrow> (string \<times> cell list) list" where
  "assign c vs [] = [(c, vs)]"
| "assign c vs ((n, ws) # cols) =
     (if n = c then (c, vs) # cols else (n, ws) # assign c vs cols)"

definition set_column :: "string \<Rightarrow> cell list \<Rightarrow> dataframe \<Rightarrow> dataframe" where
  "set_column c vs df = df\<lparr>columns := assign c vs (columns df)\<rparr>"

text \<open>\<^verbatim>\<open>df.drop(c, axis=1, inplace=True)\<close>\<close>

definition drop_column :: "string \<Rightarrow> dataframe \<Rightarrow> dataframe" where
  "drop_column c df = df\<lparr>columns := filter (\<lambda>(n, vs). n \<noteq> c) (columns df)\<rparr>"

text \<open>\<^verbatim>\<open>df.loc[idx, c] = v\<close> on an existing column \<open>c\<close>.\<close>

definition loc_set :: "nat \<Rightarrow> string \<Rightarrow> cell \<Rightarrow> dataframe \<Rightarrow> dataframe" where
  "loc_set idx c v df =
     df\<lparr>columns := map (\<lambda>(n, vs). if n = c then (n, vs[idx := v]) else (n, vs)) (columns df)\<rparr>"

text \<open>\<^verbatim>\<open>df.loc[mask, c] = v\<close> on an existing column \<open>c\<close>, for a mask \<open>msk\<close> of booleans.\<close>

definition loc_set_mask :: "bool list \<Rightarrow> string \<Rightarrow> cell \<Rightarrow> dataframe \<Rightarrow> dataframe" where
  "loc_set_mask msk c v df =
     df\<lparr>columns := map (\<lambda>(n, vs). if n = c then (n, map (\<lambda>(b, old). if b then v else old) (zip msk vs))
                                 else (n, vs)) (columns df)\<rparr>"


section \<open>\<^verbatim>\<open>OptimizedCSVCleaner\<close>: the tables of \<^verbatim>\<open>__init__\<close>\<close>

text \<open>Python dictionaries keep the order in which they were written; they are
  association lists here, looked up with \<open>map_of\<close>.\<close>

definition header_mappings :: "(string \<times> string) list" where
  "header_mappings =
     [(''Badge'', ''BADGE''), (''First Name'', ''FIRSTNAME''), (''Middle Name'', ''MIDDLENAME''),
      (''Last Name'', ''LASTNAME''), (''Date Of Birth'', ''BDAY''), (''Age'', ''AGE''),
      (''Home Facility'', ''LOCATION''), (''Email'', ''EMAIL''), (''Do Not Mail'', ''DO_NOT_MAIL''),
      (''Mobile Phone'', ''SMS''), (''Line Address'', ''ADDRESS''), (''City'', ''CITY''),
      (''State'', ''STATE''), (''Postal'', ''ZIP''), (''Country'', ''COUNTRY''),
      (''Last Visit Date'', ''LAST_VISIT''), (''Participant Agreement'', ''PARTICIPANT_AGREEMENT''),
      (''Belay'', ''BELAY_CERTIFIED''), (''Climbing Experience'', ''EXPERIENCE_LEVEL''),
      (''Referred By'', ''REFERRED_BY''), (''How Did You Hear About Us'', ''HOW_DID_YOU_HEAR''),
      (''Gender'', ''GENDER''), (''Pronouns'', ''PRONOUN''), (''Outdoor Aor'', ''OUTDOOR_AOR''),
      (''Eligible For S1'', ''ELIGIBLE_S1''), (''Customer Id'', ''CUSTOMER_ID'')]"

text \<open>The two inner dictionaries of \<^verbatim>\<open>self.cell_mappings\<close>, then the outer one.\<close>

definition badge_mappings :: "(string \<times> string) list" where
  "badge_mappings =
     [(''Staff'', ''STAFF''), (''Member'', ''MEMBER''), (''Member (frz)'', ''FROZEN''),
      (''30-Day Member'', ''PREPAID-30''), (''Day Pass Pack'', ''MULTI_PASS'')]"

definition location_mappings :: "(string \<times> string) list" where
  "location_mappings = [(''Alexandria'', ''ALX''), (''Sterling'', ''STR''), (''Rio'', ''RIO'')]"

definition cell_mappings :: "(string \<times> (string \<times> string) list) list" where
  "cell_mappings = [(''BADGE'', badge_mappings), (''LOCATION'', location_mappings)]"

definition interest_keywords :: "(string \<times> string) list" where
  "interest_keywords =
     [(''Adult Climbing Programs'', ''INTEREST_ADULT''),
      (''Fitness + Yoga'', ''INTEREST_FITNESS''),
      (''Youth Climbing Programs'', ''INTEREST_YOUTH''),
      (''Outdoor Climbing Programs (SR Climbing Guides)'', ''INTEREST_OUTDOOR'')]"

definition date_fields :: "string list" where
  "date_fields = [''BDAY'', ''LAST_VISIT'']"

definition interest_columns :: "string list" where
  "interest_columns = [''INTEREST_YOUTH'', ''INTEREST_ADULT'', ''INTEREST_OUTDOOR'', ''INTEREST_FITNESS'']"

definition valid_columns :: "string set" where
  "valid_columns = set (map snd header_mappings) \<union> set interest_columns"


section \<open>\<^verbatim>\<open>process_interests\<close>\<close>

datatype pandas_error = Label_collision | Str_accessor_error

text \<open>The inner loop over \<^verbatim>\<open>self.interest_keywords.items()\<close>, for the row \<open>idx\<close>.\<close>

fun keyword_loop :: "(string \<times> string) list \<Rightarrow> string \<Rightarrow> nat \<Rightarrow> dataframe \<Rightarrow> dataframe" where
  "keyword_loop [] value_str idx df = df"
| "keyword_loop ((keyword, col_name) # kws) value_str idx df =
     keyword_loop kws value_str idx
       (if str_contains (lower keyword) (lower value_str)
        then loc_set idx col_name (Some ''YES'') df
        else df)"

text \<open>The loop \<^verbatim>\<open>for idx, value in df[interest_col].items()\<close>; the first argument is
  the index of the next row.\<close>

fun interest_rows :: "nat \<Rightarrow> cell list \<Rightarrow> dataframe \<Rightarrow> dataframe" where
  "interest_rows idx [] df = df"
| "interest_rows idx (value # rest) df =
     interest_rows (Suc idx) rest
       (case value of
          None \<Rightarrow> df
        | Some v \<Rightarrow>
            if v \<noteq> [] then
              (let value_str = strip v
               in if value_str \<noteq> [] then keyword_loop interest_keywords value_str idx df else df)
            else df)"

text \<open>\<^verbatim>\<open>for col in [...]: df[col] = ""\<close>\<close>

definition init_interests :: "dataframe \<Rightarrow> dataframe" where
  "init_interests df =
     foldl (\<lambda>d col. set_column col (replicate (nrows d) (Some '''')) d) df interest_columns"

definition find_interest_col :: "dataframe \<Rightarrow> string option" where
  "find_interest_col df =
     (if has_column df ''Interest'' then Some ''Interest''
      else if has_column df ''interest'' then Some ''interest''
      else None)"

text \<open>
  \<^verbatim>\<open>df['Youth Programs Interest'].str.lower() == 'yes'\<close>. A missing cell compares
  false. The accessor \<^verbatim>\<open>.str\<close> raises \<^verbatim>\<open>AttributeError\<close> on a column that holds no
  string: \<^verbatim>\<open>pd.read_csv\<close> types a column whose cells are all missing as
  \<^verbatim>\<open>float64\<close>, unless the table has no row.
\<close>

definition youth_mask :: "cell list \<Rightarrow> bool list" where
  "youth_mask vals = map (\<lambda>v. case v of None \<Rightarrow> False | Some s \<Rightarrow> lower s = ''yes'') vals"

definition has_str_accessor :: "cell list \<Rightarrow> bool" where
  "has_str_accessor vals = (vals = [] \<or> list_ex (\<lambda>v. v \<noteq> None) vals)"

text \<open>The block \<^verbatim>\<open>if interest_col: ...\<close>: the scan of the free-text column, which is
  then dropped.\<close>

definition scan_free_text :: "dataframe \<Rightarrow> dataframe" where
  "scan_free_text df =
     (case find_interest_col df of
        None \<Rightarrow> df
      | Some interest_col \<Rightarrow>
          drop_column interest_col (interest_rows 0 (column_values df interest_col) df))"

text \<open>The block \<^verbatim>\<open>if 'Youth Programs Interest' in df.columns: ...\<close>\<close>

definition mark_youth :: "dataframe \<Rightarrow> pandas_error + dataframe" where
  "mark_youth df =
     (if has_column df ''Youth Programs Interest'' then
        (let ys = column_values df ''Youth Programs Interest''
         in if has_str_accessor ys then
              Inr (drop_column ''Youth Programs Interest''
                     (loc_set_mask (youth_mask ys) ''INTEREST_YOUTH'' (Some ''YES'') df))
            else Inl Str_accessor_error)
      else Inr df)"

definition process_interests :: "dataframe \<Rightarrow> pandas_error + dataframe" where
  "process_interests df = mark_youth (scan_free_text (init_interests df))"


section \<open>\<^verbatim>\<open>clean_dataframe\<close>\<close>

text \<open>\<^verbatim>\<open>cleaned.rename(columns=self.header_mappings, inplace=True)\<close>\<close>

definition rename_label :: "string \<Rightarrow> string" where
  "rename_label c = (case map_of header_mappings c of None \<Rightarrow> c | Some n \<Rightarrow> n)"

definition rename_columns :: "dataframe \<Rightarrow> dataframe" where
  "rename_columns df = df\<lparr>columns := map (\<lambda>(c, vs). (rename_label c, vs)) (columns df)\<rparr>"

text \<open>\<^verbatim>\<open>.fillna("").replace("", "GUEST")\<close> on one cell.\<close>

definition fill_guest :: "cell \<Rightarrow> cell" where
  "fill_guest v =
     (let filled = (case v of None \<Rightarrow> '''' | Some s \<Rightarrow> s)
      in if filled = '''' then Some ''GUEST'' else Some filled)"

text \<open>\<^verbatim>\<open>series.map(mappings).fillna(series)\<close> on one cell: a value that is no key, and
  a missing value, map to NaN, which \<^verbatim>\<open>fillna\<close> replaces by the original cell.\<close>

definition map_fallback :: "(string \<times> string) list \<Rightarrow> cell \<Rightarrow> cell" where
  "map_fallback mappings v =
     (case (case v of None \<Rightarrow> None | Some s \<Rightarrow> map_of mappings s) of
        None \<Rightarrow> v
      | Some m \<Rightarrow> Some m)"

definition map_cells_step :: "dataframe \<Rightarrow> string \<times> (string \<times> string) list \<Rightarrow> dataframe" where
  "map_cells_step cleaned cm =
     (case cm of (col, mappings) \<Rightarrow>
        if has_column cleaned col then
          (let c1 = (if col = ''BADGE''
                     then set_column col (map fill_guest (column_values cleaned col)) cleaned
                     else cleaned)
           in set_column col (map (map_fallback mappings) (column_values c1 col)) c1)
        else cleaned)"

definition apply_cell_mappings :: "dataframe \<Rightarrow> dataframe" where
  "apply_cell_mappings cleaned = foldl map_cells_step cleaned cell_mappings"

definition clean_phones :: "dataframe \<Rightarrow> dataframe" where
  "clean_phones cleaned =
     (if has_column cleaned ''SMS''
      then set_column ''SMS'' (map (\<lambda>v. Some (clean_phone v)) (column_values cleaned ''SMS'')) cleaned
      else cleaned)"

text \<open>One date field. With \<^verbatim>\<open>BDAY\<close> and an \<^verbatim>\<open>AGE\<close> column the cleaner goes row by
  row and passes the age of the row; otherwise the age is defaulted.\<close>

definition format_dates_step ::
  "(string \<Rightarrow> timestamp option) \<Rightarrow> int \<Rightarrow> dataframe \<Rightarrow> string \<Rightarrow> dataframe" where
  "format_dates_step to_datetime_coerce current_year cleaned date_field =
     (if has_column cleaned date_field then
        (if date_field = ''BDAY'' \<and> has_column cleaned ''AGE'' then
           set_column date_field
             (map (\<lambda>(d, a). Some (format_date to_datetime_coerce current_year d a))
                  (zip (column_values cleaned date_field) (column_values cleaned ''AGE'')))
             cleaned
         else
           set_column date_field
             (map (\<lambda>d. Some (format_date to_datetime_coerce current_year d None))
                  (column_values cleaned date_field))
             cleaned)
      else cleaned)"

definition format_dates ::
  "(string \<Rightarrow> timestamp option) \<Rightarrow> int \<Rightarrow> dataframe \<Rightarrow> dataframe" where
  "format_dates to_datetime_coerce current_year cleaned =
     foldl (format_dates_step to_datetime_coerce current_year) cleaned date_fields"

text \<open>\<^verbatim>\<open>final_cols = [col for col in cleaned.columns if col in self.valid_columns]\<close>,
  \<^verbatim>\<open>cleaned = cleaned[final_cols]\<close>\<close>

definition project :: "dataframe \<Rightarrow> dataframe" where
  "project cleaned = cleaned\<lparr>columns := filter (\<lambda>(c, vs). c \<in> valid_columns) (columns cleaned)\<rparr>"

text \<open>
  \<open>clean_dataframe\<close>. The progress bar and the status texts are not part of the table
  and are left out. When the renaming gives two columns the same label (a source header
  and its canonical name both present), \<^verbatim>\<open>cleaned[col]\<close> is a frame and not a column,
  and what the stages then do depends on the label and on the pandas version; such a
  table is outside this model, which stops with \<open>Label_collision\<close>.
\<close>

definition clean_dataframe ::
  "(string \<Rightarrow> timestamp option) \<Rightarrow> int \<Rightarrow> dataframe \<Rightarrow> pandas_error + dataframe" where
  "clean_dataframe to_datetime_coerce current_year df =
     (let cleaned = rename_columns df
      in if \<not> distinct (labels cleaned) then Inl Label_collision
         else
           (case process_interests cleaned of
              Inl e \<Rightarrow> Inl e
            | Inr c1 \<Rightarrow>
                Inr (project
                       (format_dates to_datetime_coerce current_year
                          (clean_phones (apply_cell_mappings c1))))))"


section \<open>Notions used to state and prove the properties\<close>

text \<open>The free-text interest cell of row \<open>i\<close>: the cell of the column that
  \<open>find_interest_col\<close> selects, missing when there is no such column.\<close>

definition free_text_cell :: "dataframe \<Rightarrow> nat \<Rightarrow> cell" where
  "free_text_cell df i =
     (case find_interest_col df of None \<Rightarrow> None | Some ic \<Rightarrow> column_values df ic ! i)"

text \<open>The phrase is contained in the cell, letter case ignored.\<close>

definition phrase_in_cell :: "string \<Rightarrow> cell \<Rightarrow> bool" where
  "phrase_in_cell keyword v =
     (case v of None \<Rightarrow> False | Some x \<Rightarrow> str_contains (lower keyword) (lower x))"

text \<open>Row \<open>i\<close> says yes, in any letter case, in the column
  \<^verbatim>\<open>Youth Programs Interest\<close>.\<close>

definition youth_yes :: "dataframe \<Rightarrow> nat \<Rightarrow> bool" where
  "youth_yes df i =
     (has_column df ''Youth Programs Interest'' \<and>
      (case column_values df ''Youth Programs Interest'' ! i of
         None \<Rightarrow> False
       | Some y \<Rightarrow> lower y = ''yes''))"

text \<open>What the two loops of \<open>process_interests\<close> do to one column \<open>n\<close>: the keywords
  of a list that hit a stripped cell and are aimed at \<open>n\<close>; the same for a raw cell;
  and the cells of \<open>n\<close> after the rows from \<open>idx\<close> on have been visited.\<close>

definition keyword_hits :: "(string \<times> string) list \<Rightarrow> string \<Rightarrow> string \<Rightarrow> bool" where
  "keyword_hits kws value_str n =
     list_ex (\<lambda>(keyword, col_name). col_name = n \<and> str_contains (lower keyword) (lower value_str)) kws"

definition cell_hits :: "cell \<Rightarrow> string \<Rightarrow> bool" where
  "cell_hits v n =
     (case v of
        None \<Rightarrow> False
      | Some x \<Rightarrow> x \<noteq> [] \<and> strip x \<noteq> [] \<and> keyword_hits interest_keywords (strip x) n)"

fun mark_rows :: "string \<Rightarrow> nat \<Rightarrow> cell list \<Rightarrow> cell list \<Rightarrow> cell list" where
  "mark_rows n idx [] vs = vs"
| "mark_rows n idx (v # rest) vs =
     mark_rows n (Suc idx) rest (if cell_hits v n then vs[idx := Some ''YES''] else vs)"

text \<open>The cells of the column \<open>c\<close> rewritten one by one with \<open>f\<close>.\<close>

definition map_cells :: "string \<Rightarrow> (cell \<Rightarrow> cell) \<Rightarrow> dataframe \<Rightarrow> dataframe" where
  "map_cells c f df =
     df\<lparr>columns := map (\<lambda>(n, vs). (n, if n = c then map f vs else vs)) (columns df)\<rparr>"

text \<open>What the three stages between \<open>process_interests\<close> and the projection do to a
  cell of the column \<open>n\<close>, and to a whole table.\<close>

definition final_cell :: "(string \<Rightarrow> timestamp option) \<Rightarrow> int \<Rightarrow> string \<Rightarrow> cell \<Rightarrow> cell" where
  "final_cell to_datetime_coerce current_year n v =
     (if n = ''BADGE'' then map_fallback badge_mappings (fill_guest v)
      else if n = ''LOCATION'' then map_fallback location_mappings v
      else if n = ''SMS'' then Some (clean_phone v)
      else if n = ''BDAY'' \<or> n = ''LAST_VISIT''
        then Some (format_date to_datetime_coerce current_year v None)
      else v)"

definition finalize :: "(string \<Rightarrow> timestamp option) \<Rightarrow> int \<Rightarrow> dataframe \<Rightarrow> dataframe" where
  "finalize to_datetime_coerce current_year df =
     df\<lparr>columns := map (\<lambda>(n, vs). (n, map (final_cell to_datetime_coerce current_year n) vs))
                       (columns df)\<rparr>"

text \<open>The table with every cell of the four interest columns replaced by the empty
  string, and everything else as it is.\<close>

definition blank_interests :: "dataframe \<Rightarrow> dataframe" where
  "blank_interests df =
     df\<lparr>columns := map (\<lambda>(n, vs). (n, if n \<in> set interest_columns then map (\<lambda>v. Some '''') vs else vs))
                       (columns df)\<rparr>"

text \<open>The rows \<open>idxs\<close> of a table, in the order of the list \<open>idxs\<close>.\<close>

definition select_rows :: "nat list \<Rightarrow> dataframe \<Rightarrow> dataframe" where
  "select_rows idxs df =
     \<lparr>nrows = length idxs, columns = map (\<lambda>(n, vs). (n, map (\<lambda>i. vs ! i) idxs)) (columns df)\<rparr>"

text \<open>A second instance: the parser that reads the compact form \<^verbatim>\<open>YYYYMMDD\<close>, one of
  the forms the free-form parse accepts, and nothing else.\<close>

definition coerce_compact :: "string \<Rightarrow> timestamp option" where
  "coerce_compact s =
     (if length s = 8 \<and> list_all is_digit s
      then Timestamp (int (int_of_digits (take 4 s))) (int_of_digits (take 2 (drop 4 s)))
             (int_of_digits (drop 6 s))
      else None)"

section \<open>Properties of the scalar cleaners\<close>

subsection \<open>Phone numbers\<close>

lemma re_sub_non_digit_filter: "re_sub_non_digit s = filter is_digit s"
  by (induction s) auto

text \<open>
  Claim C3, on its example: the digits of \<^verbatim>\<open>(555) 123-4567 ext2\<close> are eleven,
  5 5 5 1 2 3 4 5 6 7 2, and \<open>clean_phone\<close> keeps them all; the ten-character string
  \<^verbatim>\<open>5551234562\<close> of the claim, which has lost the 7, is not what it returns.
\<close>

theorem clean_phone_example_counterexample:
  "clean_phone (Some ''(555) 123-4567 ext2'') \<noteq> ''5551234562''"
  by (simp add: clean_phone_def is_digit_def)

lemma map_of_assign: "map_of (assign c vs cols) = (map_of cols)(c \<mapsto> vs)"
  by (induction cols) auto

lemma column_values_set_column:
  "column_values (set_column c vs df) n = (if n = c then vs else column_values df n)"
  by (simp add: column_values_def set_column_def map_of_assign)

text \<open>
  Claim C3, amended: \<open>clean_phone\<close> returns exactly the digit characters of the cell, in
  their original order; a missing cell and the empty string give the empty string;
  \<^verbatim>\<open>(555) 123-4567 ext2\<close> gives \<^verbatim>\<open>55512345672\<close>; and the phone stage of
  \<open>clean_dataframe\<close> rewrites every cell of the column \<^verbatim>\<open>SMS\<close> so.
\<close>

theorem clean_phone_digits_only:
  "clean_phone (Some s) = filter is_digit s \<and>
   clean_phone None = '''' \<and>
   clean_phone (Some '''') = '''' \<and>
   clean_phone (Some ''(555) 123-4567 ext2'') = ''55512345672'' \<and>
   column_values (clean_phones df) ''SMS'' =
     map (\<lambda>v. Some (clean_phone v)) (column_values df ''SMS'')"
proof -
  have "column_values (clean_phones df) ''SMS'' =
     map (\<lambda>v. Some (clean_phone v)) (column_values df ''SMS'')"
  proof (cases "has_column df ''SMS''")
    case True
    then show ?thesis by (simp add: clean_phones_def column_values_set_column)
  next
    case False
    then have "map_of (columns df) ''SMS'' = None"
      by (simp add: has_column_def labels_def map_of_eq_None_iff)
    with False show ?thesis by (simp add: clean_phones_def column_values_def)
  qed
  then show ?thesis
    by (simp add: clean_phone_def re_sub_non_digit_filter is_digit_def)
qed


subsection \<open>Dates: where the clock enters\<close>

lemma Timestamp_Some:
  "Timestamp y m d = Some t \<Longrightarrow> t = \<lparr>ts_year = y, ts_month = m, ts_day = d\<rparr> \<and> valid_ymd y m d"
  by (auto simp: Timestamp_def split: if_splits)

lemma to_datetime_format_valid:
  assumes "to_datetime_format s fmt = Some t"
  shows "valid_ymd (ts_year t) (ts_month t) (ts_day t)"
proof -
  from assms obtain y m d where "Timestamp y m d = Some t"
    by (auto simp: to_datetime_format_def split: option.splits prod.splits)
  then show ?thesis using Timestamp_Some by fastforce
qed

lemma valid_ymd_year: "valid_ymd y m d \<Longrightarrow> 1677 \<le> y \<and> y \<le> 2262"
  by (auto simp: valid_ymd_def in_bounds_def)

text \<open>From 50 on, every branch of the century code gives the year back.\<close>

lemma resolve_year_ge_50: "50 \<le> y \<Longrightarrow> resolve_year cy age y = y"
  by (simp add: resolve_year_def Let_def)

lemma Timestamp_rebuild:
  assumes "to_datetime_format s fmt = Some t"
  shows "Timestamp (resolve_year cy age (ts_year t)) (ts_month t) (ts_day t) = Some t"
proof -
  have v: "valid_ymd (ts_year t) (ts_month t) (ts_day t)"
    using assms by (rule to_datetime_format_valid)
  then have "50 \<le> ts_year t" using valid_ymd_year by fastforce
  then have "resolve_year cy age (ts_year t) = ts_year t" by (rule resolve_year_ge_50)
  with v show ?thesis by (simp add: Timestamp_def)
qed

text \<open>So the second loop is the first loop run on the two-digit formats: neither the
  age nor the clock changes what it returns.\<close>

lemma try_two_digit_eq: "try_two_digit cy s age fmts = try_formats s fmts"
  by (induction fmts) (auto simp: Timestamp_rebuild split: option.splits)

text \<open>
  Claim C10 as stated fails: the result is not the same in any two runs for every date
  string. No explicit pattern parses the cell \<^verbatim>\<open>today\<close>, so it reaches the free-form
  parse, which answers with the current date: run on 6 November 2026 the cell becomes
  \<^verbatim>\<open>11-06-2026\<close>, run a year later it becomes \<^verbatim>\<open>11-06-2027\<close>.
\<close>

theorem format_date_today_counterexample:
  "try_formats (strip ''today'') date_formats = None \<and>
   try_formats (strip ''today'') two_digit_formats = None \<and>
   format_date_at parse_today_now \<lparr>ts_year = 2026, ts_month = 11, ts_day = 6\<rparr>
     (Some ''today'') None = ''11-06-2026'' \<and>
   format_date_at parse_today_now \<lparr>ts_year = 2027, ts_month = 11, ts_day = 6\<rparr>
     (Some ''today'') None = ''11-06-2027'' \<and>
   format_date_at parse_today_now \<lparr>ts_year = 2026, ts_month = 11, ts_day = 6\<rparr>
     (Some ''today'') None \<noteq>
   format_date_at parse_today_now \<lparr>ts_year = 2027, ts_month = 11, ts_day = 6\<rparr>
     (Some ''today'') None"
proof -
  have s: "strip ''today'' = ''today''" by code_simp
  have a: "try_formats ''today'' date_formats = None" by code_simp
  have b: "try_formats ''today'' two_digit_formats = None" by code_simp
  have c: "strftime \<lparr>ts_year = 2026, ts_month = 11, ts_day = 6\<rparr> = ''11-06-2026''" by code_simp
  have d: "strftime \<lparr>ts_year = 2027, ts_month = 11, ts_day = 6\<rparr> = ''11-06-2027''" by code_simp
  show ?thesis
    by (simp add: s a b c d format_date_at_def format_date_def try_two_digit_eq
        parse_today_now_def)
qed

text \<open>
  Claim C10, amended. The read of the clock that the source writes,
  \<^verbatim>\<open>pd.Timestamp.now().year\<close>, never influences the result: the year that the two-digit
  patterns hand to the century code is already a full year (lemma
  \<open>to_datetime_format_valid\<close>: at least 1677; lemma \<open>two_digit_year_range\<close>: from 1969 to
  2068), so the test \<^verbatim>\<open>year < 50\<close> that guards it is never true, and with the same
  answer of the free-form parse \<open>format_date\<close> returns the same string for any two
  current years. The clock reaches the result only through the free-form parse: two
  runs at the clocks \<open>now\<close> and \<open>now'\<close> return the same string for a missing cell, for
  every cell that one of the twelve explicit patterns parses, and for every other cell
  on which the free-form parse answers the same at both clocks.
\<close>

theorem format_date_clock_only_in_free_form:
  "format_date to_datetime_coerce cy1 date_str age =
     format_date to_datetime_coerce cy2 date_str age \<and>
   format_date_at to_datetime now None age = format_date_at to_datetime now' None age \<and>
   (try_formats (strip raw) date_formats \<noteq> None \<or>
    try_formats (strip raw) two_digit_formats \<noteq> None \<or>
    to_datetime now (strip raw) = to_datetime now' (strip raw) \<longrightarrow>
      format_date_at to_datetime now (Some raw) age =
      format_date_at to_datetime now' (Some raw) age)"
proof (intro conjI impI)
  show "format_date to_datetime_coerce cy1 date_str age =
        format_date to_datetime_coerce cy2 date_str age"
    by (simp add: format_date_def try_two_digit_eq cong: option.case_cong if_cong)
  show "format_date_at to_datetime now None age = format_date_at to_datetime now' None age"
    by (simp add: format_date_at_def format_date_def)
  assume h: "try_formats (strip raw) date_formats \<noteq> None \<or>
    try_formats (strip raw) two_digit_formats \<noteq> None \<or>
    to_datetime now (strip raw) = to_datetime now' (strip raw)"
  show "format_date_at to_datetime now (Some raw) age =
        format_date_at to_datetime now' (Some raw) age"
  proof (cases "try_formats (strip raw) date_formats")
    case (Some t)
    then show ?thesis by (simp add: format_date_at_def format_date_def)
  next
    case None
    note four = this
    show ?thesis
    proof (cases "try_formats (strip raw) two_digit_formats")
      case (Some t)
      with four show ?thesis
        by (simp add: format_date_at_def format_date_def try_two_digit_eq)
    next
      case None
      with four h have "to_datetime now (strip raw) = to_datetime now' (strip raw)" by simp
      with four None show ?thesis
        by (simp add: format_date_at_def format_date_def try_two_digit_eq)
    qed
  qed
qed

text \<open>Two runs a year apart: the cell \<^verbatim>\<open>03/04/05\<close> on a row of age 80, which a two-digit
  pattern parses, and the cell \<^verbatim>\<open>not-a-date\<close>, which nothing parses at either clock.\<close>

theorem format_date_clock_only_in_free_form_witness:
  "try_formats (strip ''03/04/05'') two_digit_formats =
     Some \<lparr>ts_year = 2005, ts_month = 3, ts_day = 4\<rparr> \<and>
   format_date_at parse_today_now \<lparr>ts_year = 2026, ts_month = 11, ts_day = 6\<rparr>
     (Some ''03/04/05'') (Some ''80'') =
   format_date_at parse_today_now \<lparr>ts_year = 2027, ts_month = 11, ts_day = 6\<rparr>
     (Some ''03/04/05'') (Some ''80'') \<and>
   parse_today_now \<lparr>ts_year = 2026, ts_month = 11, ts_day = 6\<rparr> (strip ''not-a-date'') =
   parse_today_now \<lparr>ts_year = 2027, ts_month = 11, ts_day = 6\<rparr> (strip ''not-a-date'') \<and>
   format_date_at parse_today_now \<lparr>ts_year = 2026, ts_month = 11, ts_day = 6\<rparr>
     (Some ''not-a-date'') None =
   format_date_at parse_today_now \<lparr>ts_year = 2027, ts_month = 11, ts_day = 6\<rparr>
     (Some ''not-a-date'') None"
proof -
  have a: "try_formats (strip ''03/04/05'') two_digit_formats =
     Some \<lparr>ts_year = 2005, ts_month = 3, ts_day = 4\<rparr>" by code_simp
  have s: "strip ''not-a-date'' = ''not-a-date''" by code_simp
  have b: "parse_today_now \<lparr>ts_year = 2026, ts_month = 11, ts_day = 6\<rparr> (strip ''not-a-date'') =
     parse_today_now \<lparr>ts_year = 2027, ts_month = 11, ts_day = 6\<rparr> (strip ''not-a-date'')"
    by (simp add: s parse_today_now_def)
  show ?thesis
    using format_date_clock_only_in_free_form [where to_datetime = parse_today_now
        and now = "\<lparr>ts_year = 2026, ts_month = 11, ts_day = 6\<rparr>"
        and now' = "\<lparr>ts_year = 2027, ts_month = 11, ts_day = 6\<rparr>"
        and raw = "''03/04/05''" and age = "Some ''80''"]
      format_date_clock_only_in_free_form [where to_datetime = parse_today_now
        and now = "\<lparr>ts_year = 2026, ts_month = 11, ts_day = 6\<rparr>"
        and now' = "\<lparr>ts_year = 2027, ts_month = 11, ts_day = 6\<rparr>"
        and raw = "''not-a-date''" and age = None]
      a b by simp
qed

lemma try_formats_03_04_05: "try_formats ''03/04/05'' date_formats = None"
  by code_simp

lemma try_two_digit_03_04_05:
  "try_formats ''03/04/05'' two_digit_formats = Some \<lparr>ts_year = 2005, ts_month = 3, ts_day = 4\<rparr>"
  by code_simp

lemma strip_03_04_05: "strip ''03/04/05'' = ''03/04/05''"
  by code_simp

lemma strftime_2005_03_04: "strftime \<lparr>ts_year = 2005, ts_month = 3, ts_day = 4\<rparr> = ''03-04-2005''"
  by code_simp

text \<open>
  Claim C1, at the failing input: the cell \<^verbatim>\<open>03/04/05\<close> on a row of age 80, in 2026.
  The estimated birth year is 1946, the raw two-digit year 5 is below 50, and the
  specification's rule gives 1905; \<open>format_date\<close> returns the year 2005.
\<close>

theorem format_date_ignores_age_03_04_05:
  "format_date to_datetime_coerce 2026 (Some ''03/04/05'') (Some ''80'') = ''03-04-2005'' \<and>
   spec_century 2026 80 5 = 1905"
  by (simp add: format_date_def try_two_digit_eq try_formats_03_04_05 try_two_digit_03_04_05
      strip_03_04_05 strftime_2005_03_04 spec_century_def)


subsection \<open>Dates: cells that do not parse, and two-digit years without an age\<close>

lemma try_formats_None: "try_formats s fmts = None \<longleftrightarrow> (\<forall>fmt\<in>set fmts. to_datetime_format s fmt = None)"
  by (induction fmts) (auto split: option.splits)

lemma dropWhile_id: "xs \<noteq> [] \<Longrightarrow> \<not> P (hd xs) \<Longrightarrow> dropWhile P xs = xs"
  by (cases xs) auto

lemma strip_no_outer_space:
  assumes "raw \<noteq> []" "\<not> is_space (hd raw)" "\<not> is_space (last raw)"
  shows "strip raw = raw"
proof -
  have "dropWhile is_space raw = raw" using assms by (simp add: dropWhile_id)
  moreover have "dropWhile is_space (rev raw) = rev raw"
    using assms by (simp add: dropWhile_id hd_rev)
  ultimately show ?thesis by (simp add: strip_def)
qed

text \<open>
  Claim C8, amended: when no four-digit-year pattern, no two-digit-year pattern and no
  free-form parse succeeds on the stripped cell, \<open>format_date\<close> returns the cell with its
  leading and trailing white space stripped; a cell that has none is returned unchanged.
  The function is total: there is no error for the caller to see.
\<close>

theorem format_date_unparseable:
  assumes "\<forall>fmt\<in>set date_formats. to_datetime_format (strip raw) fmt = None"
      and "\<forall>fmt\<in>set two_digit_formats. to_datetime_format (strip raw) fmt = None"
      and "to_datetime_coerce (strip raw) = None"
  shows "format_date to_datetime_coerce cy (Some raw) age = strip raw \<and>
         (raw \<noteq> [] \<and> \<not> is_space (hd raw) \<and> \<not> is_space (last raw) \<longrightarrow>
            format_date to_datetime_coerce cy (Some raw) age = raw)"
proof -
  have a: "try_formats (strip raw) date_formats = None"
    using assms(1) by (simp add: try_formats_None)
  have b: "try_two_digit cy (strip raw) age two_digit_formats = None"
    using assms(2) by (simp add: try_two_digit_eq try_formats_None)
  have c: "raw = [] \<Longrightarrow> strip raw = []" by (simp add: strip_def)
  have "format_date to_datetime_coerce cy (Some raw) age = strip raw"
    using a b c assms(3) by (auto simp: format_date_def)
  then show ?thesis using strip_no_outer_space by auto
qed

text \<open>The cell \<^verbatim>\<open>not-a-date\<close> is returned as it is.\<close>

theorem format_date_unparseable_witness:
  "try_formats (strip ''not-a-date'') date_formats = None \<and>
   try_formats (strip ''not-a-date'') two_digit_formats = None \<and>
   coerce_nothing (strip ''not-a-date'') = None \<and>
   \<not> is_space (hd ''not-a-date'') \<and> \<not> is_space (last ''not-a-date'') \<and>
   format_date coerce_nothing 2026 (Some ''not-a-date'') None = ''not-a-date''"
proof -
  have a': "try_formats (strip ''not-a-date'') date_formats = None" by code_simp
  have b': "try_formats (strip ''not-a-date'') two_digit_formats = None" by code_simp
  have a: "\<forall>fmt\<in>set date_formats. to_datetime_format (strip ''not-a-date'') fmt = None"
    using a' by (simp only: try_formats_None)
  have b: "\<forall>fmt\<in>set two_digit_formats. to_datetime_format (strip ''not-a-date'') fmt = None"
    using b' by (simp only: try_formats_None)
  have c: "coerce_nothing (strip ''not-a-date'') = None" by (simp add: coerce_nothing_def)
  have d: "\<not> is_space (hd ''not-a-date'') \<and> \<not> is_space (last ''not-a-date'')"
    by (simp add: is_space_def)
  have e: "''not-a-date'' \<noteq> []" by simp
  show ?thesis
    using format_date_unparseable [where raw = "''not-a-date''" and to_datetime_coerce = coerce_nothing
        and cy = 2026 and age = None] a' b' a b c d e by blast
qed

text \<open>
  Claim C8 as stated fails on a cell with white space around it: nothing parses
  \<^verbatim>\<open>" not-a-date"\<close>, and what comes back is \<^verbatim>\<open>"not-a-date"\<close>, not the raw cell.
\<close>

theorem format_date_strips_counterexample:
  "try_formats (strip '' not-a-date'') date_formats = None \<and>
   try_formats (strip '' not-a-date'') two_digit_formats = None \<and>
   coerce_nothing (strip '' not-a-date'') = None \<and>
   format_date coerce_nothing 2026 (Some '' not-a-date'') None \<noteq> '' not-a-date''"
proof -
  have s: "strip '' not-a-date'' = ''not-a-date''" by code_simp
  have a: "try_formats ''not-a-date'' date_formats = None" by code_simp
  have b: "try_formats ''not-a-date'' two_digit_formats = None" by code_simp
  show ?thesis
    by (simp add: s a b coerce_nothing_def format_date_def try_two_digit_eq)
qed


lemma match_classes_shape:
  "match_classes cls s = Some (tok, r) \<Longrightarrow> list_all2 (\<lambda>c cl. c \<in> set cl) tok cls \<and> s = tok @ r"
proof (induction cls s arbitrary: tok r rule: match_classes.induct)
  case (3 cl cls x xs)
  then show ?case by (auto split: if_splits option.splits)
qed auto

lemma re_match_Directive_elem:
  assumes "(g, r) \<in> set (re_match (Directive d # its) s)"
  shows "\<exists>alt tok r' g'. alt \<in> set (directive_alts d) \<and> match_classes alt s = Some (tok, r') \<and>
           (g', r) \<in> set (re_match its r') \<and> g = (d, tok) # g'"
  using assms by (auto split: option.splits) metis

lemma re_match_Literal_elem:
  assumes "(g, r) \<in> set (re_match (Literal c # its) s)"
  shows "\<exists>xs. s = c # xs \<and> (g, r) \<in> set (re_match its xs)"
  using assms by (auto split: list.splits if_splits)

lemma strptime_groups_elem:
  "strptime_groups s fmt = Some g \<Longrightarrow> (g, []) \<in> set (re_match (compile_format fmt) s)"
  by (auto simp: strptime_groups_def split: list.splits if_splits)

lemma two_digit_compile:
  "fmt \<in> set two_digit_formats \<Longrightarrow>
   \<exists>c. compile_format fmt = [Directive CHR ''m'', Literal c, Directive CHR ''d'', Literal c, Directive CHR ''y'']"
  by (auto simp: two_digit_formats_def is_space_def)

lemma two_digit_groups:
  assumes "fmt \<in> set two_digit_formats" "strptime_groups s fmt = Some g"
  shows "\<exists>tm td a b. g = [(CHR ''m'', tm), (CHR ''d'', td), (CHR ''y'', [a, b])] \<and> is_digit a \<and> is_digit b"
proof -
  from two_digit_compile [OF assms(1)] obtain c where
    c: "compile_format fmt = [Directive CHR ''m'', Literal c, Directive CHR ''d'', Literal c, Directive CHR ''y'']"
    by blast
  from strptime_groups_elem [OF assms(2)] c
  have m: "(g, []) \<in> set (re_match [Directive CHR ''m'', Literal c, Directive CHR ''d'', Literal c, Directive CHR ''y''] s)"
    by simp
  from re_match_Directive_elem [OF m] obtain tm r1 g1 where
    g: "g = (CHR ''m'', tm) # g1" and m1: "(g1, []) \<in> set (re_match [Literal c, Directive CHR ''d'', Literal c, Directive CHR ''y''] r1)"
    by blast
  from re_match_Literal_elem [OF m1] obtain r2 where
    m2: "(g1, []) \<in> set (re_match [Directive CHR ''d'', Literal c, Directive CHR ''y''] r2)" by blast
  from re_match_Directive_elem [OF m2] obtain td r3 g2 where
    g1: "g1 = (CHR ''d'', td) # g2" and m3: "(g2, []) \<in> set (re_match [Literal c, Directive CHR ''y''] r3)"
    by blast
  from re_match_Literal_elem [OF m3] obtain r4 where
    m4: "(g2, []) \<in> set (re_match [Directive CHR ''y''] r4)" by blast
  from re_match_Directive_elem [OF m4] obtain alt ty r5 g3 where
    alt: "alt \<in> set (directive_alts CHR ''y'')" and mc: "match_classes alt r4 = Some (ty, r5)"
    and g2: "g2 = (CHR ''y'', ty) # g3" and m5: "(g3, []) \<in> set (re_match [] r5)"
    by blast
  from m5 have g3: "g3 = []" by simp
  from alt have "alt = [''0123456789'', ''0123456789'']" by (simp add: directive_alts_def)
  with match_classes_shape [OF mc]
  have "list_all2 (\<lambda>c cl. c \<in> set cl) ty [''0123456789'', ''0123456789'']" by simp
  then obtain a b where "ty = [a, b]" "is_digit a" "is_digit b"
    by (auto simp: list_all2_Cons2 is_digit_def)
  with g g1 g2 g3 show ?thesis by blast
qed

lemma digit_val_le: "is_digit a \<Longrightarrow> digit_val a \<le> 9"
  by (auto simp: is_digit_def digit_val_def)

lemma int_of_two_digits: "is_digit a \<Longrightarrow> is_digit b \<Longrightarrow> int_of_digits [a, b] < 100"
  using digit_val_le [of a] digit_val_le [of b] by (simp add: int_of_digits_def)

lemma two_digit_year_range:
  assumes "fmt \<in> set two_digit_formats" "to_datetime_format s fmt = Some t"
  shows "1969 \<le> ts_year t \<and> ts_year t \<le> 2068"
proof -
  from assms(2) obtain g where sg: "strptime_groups s fmt = Some g"
    by (auto simp: to_datetime_format_def split: option.splits)
  from two_digit_groups [OF assms(1) sg] obtain tm td a b where
    g: "g = [(CHR ''m'', tm), (CHR ''d'', td), (CHR ''y'', [a, b])]" and ab: "is_digit a" "is_digit b"
    by blast
  have "fields_of g = (century_of_y (int_of_digits [a, b]), int_of_digits tm, int_of_digits (strip td))"
    by (simp add: g fields_of_def read_group_def)
  with assms(2) sg have "ts_year t = century_of_y (int_of_digits [a, b])"
    by (auto simp: to_datetime_format_def dest: Timestamp_Some)
  with int_of_two_digits [OF ab] show ?thesis by (simp add: century_of_y_def)
qed

lemma first_parse_Some:
  "first_parse s fmts = Some (g, t) \<Longrightarrow>
   try_formats s fmts = Some t \<and> (\<exists>fmt\<in>set fmts. strptime_groups s fmt = Some g \<and> to_datetime_format s fmt = Some t)"
proof (induction fmts)
  case (Cons fmt fmts)
  then show ?case
    by (auto simp: to_datetime_format_def split: option.splits)
qed simp

lemma first_parse_empty: "first_parse [] two_digit_formats = None"
  by code_simp

text \<open>
  Claim C7: on a cell that no four-digit-year pattern parses and a two-digit-year
  pattern does, on a row whose age is missing or not purely numeric, a raw two-digit year
  below 50 becomes \<open>2000 + yy\<close>, and one from 50 on keeps the century the pattern itself
  assumes (\<open>century_of_y\<close>: 2000 up to 68, 1900 from 69).
\<close>

theorem two_digit_year_without_age:
  assumes "try_formats (strip raw) date_formats = None"
      and "first_parse (strip raw) two_digit_formats = Some (g, t)"
      and "\<not> age_is_numeric age"
  shows "raw_two_digit_year g < 100 \<and>
         format_date to_datetime_coerce cy (Some raw) age =
           strftime \<lparr>ts_year = (if raw_two_digit_year g < 50 then 2000 + int (raw_two_digit_year g)
                                else century_of_y (raw_two_digit_year g)),
                     ts_month = ts_month t, ts_day = ts_day t\<rparr>"
proof -
  from first_parse_Some [OF assms(2)] obtain fmt where
    t2: "try_formats (strip raw) two_digit_formats = Some t" and
    fmt: "fmt \<in> set two_digit_formats" and sg: "strptime_groups (strip raw) fmt = Some g" and
    td: "to_datetime_format (strip raw) fmt = Some t" by blast
  from two_digit_groups [OF fmt sg] obtain tm td' a b where
    g: "g = [(CHR ''m'', tm), (CHR ''d'', td'), (CHR ''y'', [a, b])]" and ab: "is_digit a" "is_digit b"
    by blast
  have yy: "raw_two_digit_year g = int_of_digits [a, b]" by (simp add: g raw_two_digit_year_def)
  have lt: "raw_two_digit_year g < 100" using ab by (simp add: yy int_of_two_digits)
  have "fields_of g = (century_of_y (int_of_digits [a, b]), int_of_digits tm, int_of_digits (strip td'))"
    by (simp add: g fields_of_def read_group_def)
  with td sg have "ts_year t = century_of_y (raw_two_digit_year g)"
    by (auto simp: to_datetime_format_def yy dest: Timestamp_Some)
  moreover have "(if raw_two_digit_year g < 50 then 2000 + int (raw_two_digit_year g)
                  else century_of_y (raw_two_digit_year g)) = century_of_y (raw_two_digit_year g)"
    by (simp add: century_of_y_def)
  ultimately have rec: "\<lparr>ts_year = (if raw_two_digit_year g < 50 then 2000 + int (raw_two_digit_year g)
                                else century_of_y (raw_two_digit_year g)),
                     ts_month = ts_month t, ts_day = ts_day t\<rparr> = t" by simp
  have ne: "strip raw \<noteq> []" using assms(2) first_parse_empty by auto
  then have ne': "raw \<noteq> []" by (auto simp: strip_def)
  have "format_date to_datetime_coerce cy (Some raw) age = strftime t"
    using assms(1) t2 ne ne' by (simp add: format_date_def try_two_digit_eq)
  with rec lt show ?thesis by simp
qed

lemma first_parse_03_04_05:
  "first_parse ''03/04/05'' two_digit_formats =
     Some ([(CHR ''m'', ''03''), (CHR ''d'', ''04''), (CHR ''y'', ''05'')],
           \<lparr>ts_year = 2005, ts_month = 3, ts_day = 4\<rparr>)"
  by code_simp

text \<open>The cell \<^verbatim>\<open>03/04/05\<close> with no age becomes \<^verbatim>\<open>03-04-2005\<close>.\<close>

theorem two_digit_year_without_age_witness:
  "try_formats (strip ''03/04/05'') date_formats = None \<and>
   first_parse (strip ''03/04/05'') two_digit_formats =
     Some ([(CHR ''m'', ''03''), (CHR ''d'', ''04''), (CHR ''y'', ''05'')],
           \<lparr>ts_year = 2005, ts_month = 3, ts_day = 4\<rparr>) \<and>
   \<not> age_is_numeric None \<and>
   format_date coerce_nothing 2026 (Some ''03/04/05'') None = ''03-04-2005''"
proof -
  have a: "try_formats (strip ''03/04/05'') date_formats = None"
    by (simp add: strip_03_04_05 try_formats_03_04_05)
  have b: "first_parse (strip ''03/04/05'') two_digit_formats =
     Some ([(CHR ''m'', ''03''), (CHR ''d'', ''04''), (CHR ''y'', ''05'')],
           \<lparr>ts_year = 2005, ts_month = 3, ts_day = 4\<rparr>)"
    by (simp add: strip_03_04_05 first_parse_03_04_05)
  have c: "\<not> age_is_numeric None" by (simp add: age_is_numeric_def)
  have y: "raw_two_digit_year [(CHR ''m'', ''03''), (CHR ''d'', ''04''), (CHR ''y'', ''05'')] = 5"
    by (simp add: raw_two_digit_year_def int_of_digits_def digit_val_def)
  from two_digit_year_without_age [OF a b c, of coerce_nothing 2026]
  have "format_date coerce_nothing 2026 (Some ''03/04/05'') None = ''03-04-2005''"
    by (simp add: y strftime_2005_03_04)
  with a b c show ?thesis by blast
qed


subsection \<open>Dates: a formatted date reads back as itself\<close>

lemma month_cases:
  "1 \<le> m \<Longrightarrow> m \<le> 12 \<Longrightarrow>
   m = 1 \<or> m = 2 \<or> m = 3 \<or> m = 4 \<or> m = 5 \<or> m = 6 \<or> m = 7 \<or> m = 8 \<or> m = 9 \<or> m = 10 \<or> m = 11 \<or> m = (12::nat)"
  by arith

lemma day_cases:
  "1 \<le> d \<Longrightarrow> d \<le> 31 \<Longrightarrow>
   d = 1 \<or> d = 2 \<or> d = 3 \<or> d = 4 \<or> d = 5 \<or> d = 6 \<or> d = 7 \<or> d = 8 \<or> d = 9 \<or> d = 10 \<or>
   d = 11 \<or> d = 12 \<or> d = 13 \<or> d = 14 \<or> d = 15 \<or> d = 16 \<or> d = 17 \<or> d = 18 \<or> d = 19 \<or> d = 20 \<or>
   d = 21 \<or> d = 22 \<or> d = 23 \<or> d = 24 \<or> d = 25 \<or> d = 26 \<or> d = 27 \<or> d = 28 \<or> d = 29 \<or> d = 30 \<or>
   d = (31::nat)"
  by arith

lemma re_match_month_dash:
  assumes "1 \<le> m" "m \<le> 12"
  shows "re_match (Directive CHR ''m'' # Literal CHR ''-'' # its) (pad2 m @ CHR ''-'' # rest) =
         map (\<lambda>(g, e). ((CHR ''m'', pad2 m) # g, e)) (re_match its rest)"
  using month_cases [OF assms]
  by (elim disjE) (simp_all add: pad2_def digit_char_def directive_alts_def)

lemma re_match_month_slash:
  assumes "1 \<le> m" "m \<le> 12"
  shows "re_match (Directive CHR ''m'' # Literal CHR ''/'' # its) (pad2 m @ CHR ''-'' # rest) = []"
  using month_cases [OF assms]
  by (elim disjE) (simp_all add: pad2_def digit_char_def directive_alts_def)

lemma re_match_day_dash:
  assumes "1 \<le> d" "d \<le> 31"
  shows "re_match (Directive CHR ''d'' # Literal CHR ''-'' # its) (pad2 d @ CHR ''-'' # rest) =
         map (\<lambda>(g, e). ((CHR ''d'', pad2 d) # g, e)) (re_match its rest)"
  using day_cases [OF assms]
  by (elim disjE) (simp_all add: pad2_def digit_char_def directive_alts_def)

lemma digit_cases:
  "k < 10 \<Longrightarrow> k = 0 \<or> k = 1 \<or> k = 2 \<or> k = 3 \<or> k = 4 \<or> k = 5 \<or> k = 6 \<or> k = 7 \<or> k = 8 \<or> k = (9::nat)"
  by arith

lemma is_digit_digit_char: "is_digit (digit_char n)"
proof -
  have "n mod 10 < length ''0123456789''" by simp
  then have "''0123456789'' ! (n mod 10) \<in> set ''0123456789''" by (rule nth_mem)
  then show ?thesis by (simp only: is_digit_def digit_char_def)
qed

lemma digit_val_digit_char: "digit_val (digit_char n) = n mod 10"
proof -
  have "n mod 10 < 10" by simp
  from digit_cases [OF this] show ?thesis
    by (elim disjE) (simp_all add: digit_char_def digit_val_def)
qed

lemma int_of_digits_pad2: "n < 100 \<Longrightarrow> int_of_digits (pad2 n) = n"
  by (simp add: int_of_digits_def pad2_def digit_val_digit_char)

lemma not_space_digit: "is_digit c \<Longrightarrow> \<not> is_space c"
proof -
  assume "is_digit c"
  then have "c = CHR ''0'' \<or> c = CHR ''1'' \<or> c = CHR ''2'' \<or> c = CHR ''3'' \<or> c = CHR ''4'' \<or>
             c = CHR ''5'' \<or> c = CHR ''6'' \<or> c = CHR ''7'' \<or> c = CHR ''8'' \<or> c = CHR ''9''"
    by (simp add: is_digit_def)
  then show ?thesis by (elim disjE) (simp_all add: is_space_def)
qed

lemma four_digits:
  assumes "(n::nat) < 10000"
  shows "10 * (10 * (10 * (n div 1000 mod 10) + n div 100 mod 10) + n div 10 mod 10) + n mod 10 = n"
proof -
  have t: "n div 1000 mod 10 = n div 1000" using assms by simp
  have a: "n div 100 div 10 = n div 1000" by (simp add: div_mult2_eq [symmetric])
  have b: "n div 10 div 10 = n div 100" by (simp add: div_mult2_eq [symmetric])
  have "10 * (n div 1000) + n div 100 mod 10 = n div 100"
    using div_mult_mod_eq [of "n div 100" 10] a by (simp add: mult.commute)
  moreover have "10 * (n div 100) + n div 10 mod 10 = n div 10"
    using div_mult_mod_eq [of "n div 10" 10] b by (simp add: mult.commute)
  moreover have "10 * (n div 10) + n mod 10 = n"
    using div_mult_mod_eq [of n 10] by (simp add: mult.commute)
  ultimately show ?thesis using t by simp
qed

lemma int_of_digits_pad4: "n < 10000 \<Longrightarrow> int_of_digits (pad4 n) = n"
  using four_digits [of n] by (simp add: int_of_digits_def pad4_def digit_val_digit_char)

lemma match_classes_all:
  "list_all2 (\<lambda>c cl. c \<in> set cl) tok cls \<Longrightarrow> match_classes cls (tok @ r) = Some (tok, r)"
  by (induction tok cls rule: list_all2_induct) auto

lemma pad4_digits:
  "list_all2 (\<lambda>c cl. c \<in> set cl) (pad4 y) [''0123456789'', ''0123456789'', ''0123456789'', ''0123456789'']"
  by (simp only: pad4_def list_all2_Cons list_all2_Nil is_digit_digit_char [unfolded is_digit_def] simp_thms)

lemma re_match_year:
  "re_match [Directive CHR ''Y''] (pad4 y) = [([(CHR ''Y'', pad4 y)], [])]"
proof -
  have "match_classes [''0123456789'', ''0123456789'', ''0123456789'', ''0123456789''] (pad4 y @ []) = Some (pad4 y, [])"
    using pad4_digits by (rule match_classes_all)
  then show ?thesis by (simp add: directive_alts_def)
qed

lemma compile_mdY_dash:
  "compile_format ''%m-%d-%Y'' =
     [Directive CHR ''m'', Literal CHR ''-'', Directive CHR ''d'', Literal CHR ''-'', Directive CHR ''Y'']"
  by (simp add: is_space_def)

lemma compile_mdY_slash:
  "compile_format ''%m/%d/%Y'' =
     [Directive CHR ''m'', Literal CHR ''/'', Directive CHR ''d'', Literal CHR ''/'', Directive CHR ''Y'']"
  by (simp add: is_space_def)

lemma strftime_shape:
  "strftime \<lparr>ts_year = y, ts_month = m, ts_day = d\<rparr> =
     pad2 m @ CHR ''-'' # (pad2 d @ CHR ''-'' # pad4 (nat y))"
  by (simp add: strftime_def)

lemma valid_ymd_ranges:
  assumes "valid_ymd y m d"
  shows "1 \<le> m" "m \<le> 12" "1 \<le> d" "d \<le> 31" "nat y < 10000" "int (nat y) = y"
proof -
  have "days_in_month y m \<le> 31" by (simp add: days_in_month_def)
  with assms show "1 \<le> m" "m \<le> 12" "1 \<le> d" "d \<le> 31" by (auto simp: valid_ymd_def)
  from valid_ymd_year [OF assms] show "nat y < 10000" "int (nat y) = y" by auto
qed

lemma strip_pad2: "strip (pad2 n) = pad2 n"
proof -
  have "pad2 n \<noteq> []" "\<not> is_space (hd (pad2 n))" "\<not> is_space (last (pad2 n))"
    by (simp_all add: pad2_def not_space_digit is_digit_digit_char)
  then show ?thesis by (rule strip_no_outer_space)
qed

lemma strftime_not_slash:
  assumes "valid_ymd y m d"
  shows "to_datetime_format (strftime \<lparr>ts_year = y, ts_month = m, ts_day = d\<rparr>) ''%m/%d/%Y'' = None"
  using valid_ymd_ranges(1,2) [OF assms]
  by (simp add: to_datetime_format_def strptime_groups_def compile_mdY_slash strftime_shape
      re_match_month_slash del: compile_format.simps re_match.simps)

lemma strftime_groups_dash:
  assumes "valid_ymd y m d"
  shows "strptime_groups (strftime \<lparr>ts_year = y, ts_month = m, ts_day = d\<rparr>) ''%m-%d-%Y'' =
         Some [(CHR ''m'', pad2 m), (CHR ''d'', pad2 d), (CHR ''Y'', pad4 (nat y))]"
  using valid_ymd_ranges(1-4) [OF assms]
  by (simp add: strptime_groups_def compile_mdY_dash strftime_shape
      re_match_month_dash re_match_day_dash re_match_year del: compile_format.simps re_match.simps)

lemma strftime_dash:
  assumes "valid_ymd y m d"
  shows "to_datetime_format (strftime \<lparr>ts_year = y, ts_month = m, ts_day = d\<rparr>) ''%m-%d-%Y'' =
         Some \<lparr>ts_year = y, ts_month = m, ts_day = d\<rparr>"
proof -
  from valid_ymd_ranges [OF assms] have r: "m < 100" "d < 100" "nat y < 10000" "int (nat y) = y"
    by auto
  have "fields_of [(CHR ''m'', pad2 m), (CHR ''d'', pad2 d), (CHR ''Y'', pad4 (nat y))] = (y, m, d)"
    using r by (simp add: fields_of_def read_group_def strip_pad2 int_of_digits_pad2 int_of_digits_pad4)
  then show ?thesis
    using assms by (simp add: to_datetime_format_def strftime_groups_dash Timestamp_def)
qed

lemma try_formats_strftime:
  assumes "valid_ymd (ts_year t) (ts_month t) (ts_day t)"
  shows "try_formats (strftime t) date_formats = Some t"
proof (cases t)
  case (fields y m d)
  with assms have v: "valid_ymd y m d" by simp
  show ?thesis
    using strftime_not_slash [OF v] strftime_dash [OF v] fields
    by (simp add: date_formats_def)
qed

lemma strip_strftime: "strip (strftime t) = strftime t \<and> strftime t \<noteq> []"
proof -
  have "strftime t \<noteq> []" "\<not> is_space (hd (strftime t))" "\<not> is_space (last (strftime t))"
    by (simp_all add: strftime_def pad2_def pad4_def not_space_digit is_digit_digit_char)
  then show ?thesis using strip_no_outer_space by blast
qed

lemma last_dropWhile: "dropWhile P xs \<noteq> [] \<Longrightarrow> last (dropWhile P xs) = last xs"
proof -
  assume a: "dropWhile P xs \<noteq> []"
  have "xs = takeWhile P xs @ dropWhile P xs" by simp
  then have "last xs = last (takeWhile P xs @ dropWhile P xs)" by simp
  also have "\<dots> = last (dropWhile P xs)" using a by (rule last_appendR)
  finally show ?thesis by simp
qed

lemma strip_ends:
  assumes "strip s \<noteq> []"
  shows "\<not> is_space (hd (strip s))" "\<not> is_space (last (strip s))"
proof -
  let ?u = "dropWhile is_space s"
  let ?w = "dropWhile is_space (rev ?u)"
  have w: "?w \<noteq> []" using assms by (simp add: strip_def)
  then have u: "?u \<noteq> []" by (metis dropWhile.simps(1) rev.simps(1))
  have "hd (strip s) = last ?w" by (simp add: strip_def hd_rev)
  also have "\<dots> = last (rev ?u)" using w by (rule last_dropWhile)
  also have "\<dots> = hd ?u" using u by (simp add: last_rev)
  finally have "hd (strip s) = hd ?u" .
  moreover have "\<not> is_space (hd ?u)" using u by (rule hd_dropWhile)
  ultimately show "\<not> is_space (hd (strip s))" by simp
  have "last (strip s) = hd ?w" using w by (simp add: strip_def last_rev)
  moreover have "\<not> is_space (hd ?w)" using w by (rule hd_dropWhile)
  ultimately show "\<not> is_space (last (strip s))" by simp
qed

lemma strip_idem: "strip (strip s) = strip s"
proof (cases "strip s = []")
  case True
  have "strip [] = []" by (simp add: strip_def)
  with True show ?thesis by (simp only:)
next
  case False
  with strip_ends [OF False] show ?thesis by (simp add: strip_no_outer_space)
qed

lemma try_formats_valid:
  "try_formats s fmts = Some t \<Longrightarrow> valid_ymd (ts_year t) (ts_month t) (ts_day t)"
  by (induction fmts) (auto split: option.splits dest: to_datetime_format_valid)

lemma format_date_strftime:
  assumes "valid_ymd (ts_year t) (ts_month t) (ts_day t)"
  shows "format_date ff cy (Some (strftime t)) a = strftime t"
  using strip_strftime [of t] try_formats_strftime [OF assms]
  by (simp add: format_date_def)

lemma format_date_idem:
  assumes ff: "\<And>s t. ff s = Some t \<Longrightarrow> valid_ymd (ts_year t) (ts_month t) (ts_day t)"
  shows "format_date ff cy (Some (format_date ff cy v a)) a' = format_date ff cy v a"
proof (cases v)
  case None
  then show ?thesis by (simp add: format_date_def)
next
  case (Some raw)
  show ?thesis
  proof (cases "raw = [] \<or> strip raw = []")
    case True
    with Some show ?thesis by (auto simp: format_date_def)
  next
    case False
    let ?s = "strip raw"
    show ?thesis
    proof (cases "try_formats ?s date_formats")
      case (Some t)
      then have "format_date ff cy v a = strftime t"
        using False \<open>v = Some raw\<close> by (simp add: format_date_def)
      with try_formats_valid [OF Some] show ?thesis by (simp add: format_date_strftime)
    next
      case n1: None
      show ?thesis
      proof (cases "try_formats ?s two_digit_formats")
        case (Some t)
        then have "format_date ff cy v a = strftime t"
          using False n1 \<open>v = Some raw\<close> by (simp add: format_date_def try_two_digit_eq)
        with try_formats_valid [OF Some] show ?thesis by (simp add: format_date_strftime)
      next
        case n2: None
        show ?thesis
        proof (cases "ff ?s")
          case (Some t)
          then have "format_date ff cy v a = strftime t"
            using False n1 n2 \<open>v = Some raw\<close> by (simp add: format_date_def try_two_digit_eq)
          with ff [OF Some] show ?thesis by (simp add: format_date_strftime)
        next
          case n3: None
          have "format_date ff cy v a = ?s"
            using False n1 n2 n3 \<open>v = Some raw\<close> by (simp add: format_date_def try_two_digit_eq)
          moreover have "format_date ff cy (Some ?s) a' = ?s"
            using False n1 n2 n3 by (simp add: format_date_def try_two_digit_eq strip_idem)
          ultimately show ?thesis by simp
        qed
      qed
    qed
  qed
qed

lemma format_date_age_independent:
  "format_date ff cy v a = format_date ff cy v None"
  by (simp add: format_date_def try_two_digit_eq cong: option.case_cong if_cong)

lemma filter_digits_idem: "clean_phone (Some (clean_phone v)) = clean_phone v"
  by (cases v) (auto simp: clean_phone_def re_sub_non_digit_filter)


section \<open>Properties of the table operations\<close>

subsection \<open>Row count and labels, stage by stage\<close>

lemma nrows_simps [simp]:
  "nrows (set_column c vs df) = nrows df"
  "nrows (drop_column c df) = nrows df"
  "nrows (loc_set i c v df) = nrows df"
  "nrows (loc_set_mask msk c v df) = nrows df"
  "nrows (rename_columns df) = nrows df"
  "nrows (project df) = nrows df"
  by (simp_all add: set_column_def drop_column_def loc_set_def loc_set_mask_def
      rename_columns_def project_def)

lemma labels_assign:
  "map fst (assign c vs cols) = (if c \<in> fst ` set cols then map fst cols else map fst cols @ [c])"
  by (induction cols) force+

lemma labels_set_column:
  "labels (set_column c vs df) = (if has_column df c then labels df else labels df @ [c])"
  by (simp add: labels_def set_column_def has_column_def labels_assign)

lemma labels_drop_column: "labels (drop_column c df) = filter (\<lambda>n. n \<noteq> c) (labels df)"
  by (simp add: labels_def drop_column_def filter_map comp_def case_prod_unfold)

lemma labels_loc_set [simp]: "labels (loc_set i c v df) = labels df"
  by (auto simp: labels_def loc_set_def)

lemma labels_loc_set_mask [simp]: "labels (loc_set_mask msk c v df) = labels df"
  by (auto simp: labels_def loc_set_mask_def)

lemma labels_rename: "labels (rename_columns df) = map rename_label (labels df)"
  by (auto simp: labels_def rename_columns_def)

lemma labels_project: "labels (project df) = filter (\<lambda>c. c \<in> valid_columns) (labels df)"
  by (simp add: labels_def project_def filter_map comp_def case_prod_unfold)

lemma has_column_loc_set [simp]: "has_column (loc_set i c v df) n = has_column df n"
  by (simp add: has_column_def)

lemma labels_keyword_loop [simp]: "labels (keyword_loop kws s idx df) = labels df"
  by (induction kws s idx df rule: keyword_loop.induct) auto

lemma nrows_keyword_loop [simp]: "nrows (keyword_loop kws s idx df) = nrows df"
  by (induction kws s idx df rule: keyword_loop.induct) auto

lemma labels_interest_rows [simp]: "labels (interest_rows idx vals df) = labels df"
  by (induction idx vals df rule: interest_rows.induct) (auto simp: Let_def split: option.splits)

lemma nrows_interest_rows [simp]: "nrows (interest_rows idx vals df) = nrows df"
  by (induction idx vals df rule: interest_rows.induct) (auto simp: Let_def split: option.splits)

lemma nrows_init_interests [simp]: "nrows (init_interests df) = nrows df"
  by (simp add: init_interests_def interest_columns_def)

lemma labels_set_existing: "has_column df c \<Longrightarrow> labels (set_column c vs df) = labels df"
  by (simp add: labels_set_column)

lemma has_column_set_column: "has_column (set_column c vs df) n = (n = c \<or> has_column df n)"
  by (auto simp: has_column_def labels_set_column)

lemma labels_init_interests:
  "labels (init_interests df) = labels df @ filter (\<lambda>c. c \<notin> set (labels df)) interest_columns"
  by (simp add: init_interests_def interest_columns_def labels_set_column has_column_def)

lemma labels_map_cells_step [simp]: "labels (map_cells_step df cm) = labels df"
  by (cases cm) (auto simp: map_cells_step_def Let_def labels_set_column has_column_set_column)

lemma nrows_map_cells_step [simp]: "nrows (map_cells_step df cm) = nrows df"
  by (cases cm) (auto simp: map_cells_step_def Let_def)

lemma labels_apply_cell_mappings [simp]: "labels (apply_cell_mappings df) = labels df"
  by (simp add: apply_cell_mappings_def cell_mappings_def)

lemma nrows_apply_cell_mappings [simp]: "nrows (apply_cell_mappings df) = nrows df"
  by (simp add: apply_cell_mappings_def cell_mappings_def)

lemma labels_clean_phones [simp]: "labels (clean_phones df) = labels df"
  by (simp add: clean_phones_def labels_set_column)

lemma nrows_clean_phones [simp]: "nrows (clean_phones df) = nrows df"
  by (simp add: clean_phones_def)

lemma labels_format_dates_step [simp]: "labels (format_dates_step ff cy df f) = labels df"
  by (simp add: format_dates_step_def labels_set_column)

lemma nrows_format_dates_step [simp]: "nrows (format_dates_step ff cy df f) = nrows df"
  by (simp add: format_dates_step_def)

lemma labels_format_dates [simp]: "labels (format_dates ff cy df) = labels df"
  by (simp add: format_dates_def date_fields_def)

lemma nrows_format_dates [simp]: "nrows (format_dates ff cy df) = nrows df"
  by (simp add: format_dates_def date_fields_def)

lemma nrows_scan_free_text [simp]: "nrows (scan_free_text df) = nrows df"
  by (simp add: scan_free_text_def split: option.splits)

lemma nrows_mark_youth: "mark_youth df = Inr out \<Longrightarrow> nrows out = nrows df"
  by (auto simp: mark_youth_def Let_def split: if_splits)

lemma nrows_process_interests: "process_interests df = Inr out \<Longrightarrow> nrows out = nrows df"
  by (auto simp: process_interests_def dest: nrows_mark_youth)

lemma not_valid_sources:
  "''Interest'' \<notin> valid_columns" "''interest'' \<notin> valid_columns"
  "''Youth Programs Interest'' \<notin> valid_columns"
  by (simp_all add: valid_columns_def header_mappings_def interest_columns_def)

lemma filter_valid_drop:
  "c \<notin> valid_columns \<Longrightarrow>
   filter (\<lambda>n. n \<in> valid_columns) (labels (drop_column c df)) = filter (\<lambda>n. n \<in> valid_columns) (labels df)"
  by (auto simp: labels_drop_column intro: filter_cong)

lemma find_interest_col_cases:
  "find_interest_col df = Some ic \<Longrightarrow> ic \<notin> valid_columns \<and> has_column df ic"
  by (auto simp: find_interest_col_def not_valid_sources split: if_splits)

lemma valid_labels_scan_free_text:
  "filter (\<lambda>n. n \<in> valid_columns) (labels (scan_free_text df)) =
   filter (\<lambda>n. n \<in> valid_columns) (labels df)"
  by (auto simp: scan_free_text_def filter_valid_drop dest: find_interest_col_cases split: option.splits)

lemma valid_labels_mark_youth:
  "mark_youth df = Inr out \<Longrightarrow>
   filter (\<lambda>n. n \<in> valid_columns) (labels out) = filter (\<lambda>n. n \<in> valid_columns) (labels df)"
  by (auto simp: mark_youth_def Let_def filter_valid_drop not_valid_sources split: if_splits)

lemma valid_labels_process_interests:
  assumes "process_interests df = Inr out"
  shows "filter (\<lambda>n. n \<in> valid_columns) (labels out) =
         filter (\<lambda>n. n \<in> valid_columns) (labels (init_interests df))"
  using assms by (simp add: process_interests_def valid_labels_mark_youth valid_labels_scan_free_text)

subsection \<open>Projection\<close>

lemma valid_columns_eq:
  "valid_columns = set [''BADGE'', ''FIRSTNAME'', ''MIDDLENAME'', ''LASTNAME'', ''BDAY'', ''AGE'',
     ''LOCATION'', ''EMAIL'', ''DO_NOT_MAIL'', ''SMS'', ''ADDRESS'', ''CITY'', ''STATE'', ''ZIP'',
     ''COUNTRY'', ''LAST_VISIT'', ''PARTICIPANT_AGREEMENT'', ''BELAY_CERTIFIED'',
     ''EXPERIENCE_LEVEL'', ''REFERRED_BY'', ''HOW_DID_YOU_HEAR'', ''GENDER'', ''PRONOUN'',
     ''OUTDOOR_AOR'', ''ELIGIBLE_S1'', ''CUSTOMER_ID'', ''INTEREST_YOUTH'', ''INTEREST_ADULT'',
     ''INTEREST_OUTDOOR'', ''INTEREST_FITNESS'']"
  by (auto simp: valid_columns_def header_mappings_def interest_columns_def)

lemma clean_dataframe_Inr:
  assumes "clean_dataframe ff cy df = Inr out"
  obtains c1 where "distinct (labels (rename_columns df))"
    "process_interests (rename_columns df) = Inr c1"
    "out = project (format_dates ff cy (clean_phones (apply_cell_mappings c1)))"
  using assms by (auto simp: clean_dataframe_def Let_def split: if_splits sum.splits)

lemma clean_dataframe_labels:
  assumes "clean_dataframe ff cy df = Inr out"
  shows "labels out =
           filter (\<lambda>c. c \<in> valid_columns)
             (map rename_label (labels df) @
              filter (\<lambda>c. c \<notin> set (map rename_label (labels df))) interest_columns)"
proof -
  from assms obtain c1 where
    c1: "process_interests (rename_columns df) = Inr c1" and
    out: "out = project (format_dates ff cy (clean_phones (apply_cell_mappings c1)))"
    by (rule clean_dataframe_Inr)
  have "labels out = filter (\<lambda>c. c \<in> valid_columns) (labels c1)"
    by (simp add: out labels_project)
  also have "\<dots> = filter (\<lambda>c. c \<in> valid_columns) (labels (init_interests (rename_columns df)))"
    using c1 by (rule valid_labels_process_interests)
  finally show ?thesis
    by (simp add: labels_init_interests labels_rename)
qed

lemma interest_columns_valid: "set interest_columns \<subseteq> valid_columns"
  by (simp add: valid_columns_def)

lemma clean_dataframe_has_interest_columns:
  assumes "clean_dataframe ff cy df = Inr out"
  shows "set interest_columns \<subseteq> set (labels out)"
  using interest_columns_valid by (auto simp: clean_dataframe_labels [OF assms])

text \<open>
  Claim C4: every label of the table that \<open>clean_dataframe\<close> returns is in the allow-list
  \<open>valid_columns\<close> (by \<open>valid_columns_eq\<close> the thirty names of the specification), and
  the labels are exactly the renamed input labels, followed by the interest columns the
  input did not have, filtered by the allow-list: no other column survives, renamed or
  not.
\<close>

theorem projection_closure:
  assumes "clean_dataframe to_datetime_coerce current_year df = Inr out"
  shows "set (labels out) \<subseteq> valid_columns \<and>
         labels out =
           filter (\<lambda>c. c \<in> valid_columns)
             (map rename_label (labels df) @
              filter (\<lambda>c. c \<notin> set (map rename_label (labels df))) interest_columns)"
  using clean_dataframe_labels [OF assms] by auto

text \<open>A table with an unknown column, a renamed one, a source of interests and a
  canonical one.\<close>

theorem projection_closure_witness:
  "clean_dataframe coerce_nothing 2026
     \<lparr>nrows = 1, columns = [(''Notes'', [Some ''x'']), (''Badge'', [Some ''Staff'']),
                             (''Interest'', [None]), (''EMAIL'', [Some ''a@b.c''])]\<rparr> =
     Inr \<lparr>nrows = 1, columns =
       [(''BADGE'', [Some ''STAFF'']), (''EMAIL'', [Some ''a@b.c'']),
        (''INTEREST_YOUTH'', [Some '''']), (''INTEREST_ADULT'', [Some '''']),
        (''INTEREST_OUTDOOR'', [Some '''']), (''INTEREST_FITNESS'', [Some ''''])]\<rparr> \<and>
   set [''BADGE'', ''EMAIL'', ''INTEREST_YOUTH'', ''INTEREST_ADULT'', ''INTEREST_OUTDOOR'',
        ''INTEREST_FITNESS''] \<subseteq> valid_columns"
proof -
  let ?df = "\<lparr>nrows = 1, columns = [(''Notes'', [Some ''x'']), (''Badge'', [Some ''Staff'']),
                             (''Interest'', [None]), (''EMAIL'', [Some ''a@b.c''])]\<rparr>"
  let ?out = "\<lparr>nrows = 1, columns =
       [(''BADGE'', [Some ''STAFF'']), (''EMAIL'', [Some ''a@b.c'']),
        (''INTEREST_YOUTH'', [Some '''']), (''INTEREST_ADULT'', [Some '''']),
        (''INTEREST_OUTDOOR'', [Some '''']), (''INTEREST_FITNESS'', [Some ''''])]\<rparr>"
  have c: "clean_dataframe coerce_nothing 2026 ?df = Inr ?out" by code_simp
  have l: "labels ?out = [''BADGE'', ''EMAIL'', ''INTEREST_YOUTH'', ''INTEREST_ADULT'',
        ''INTEREST_OUTDOOR'', ''INTEREST_FITNESS'']" by (simp add: labels_def)
  from projection_closure [OF c] have "set (labels ?out) \<subseteq> valid_columns" by blast
  with c l show ?thesis by simp
qed

subsection \<open>Rectangular tables stay rectangular\<close>

lemma wf_frame_iff: "wf_frame df \<longleftrightarrow> (\<forall>(c, vs)\<in>set (columns df). length vs = nrows df)"
  by (simp add: wf_frame_def list_all_iff)

lemma set_assign: "set (assign c vs cols) \<subseteq> insert (c, vs) (set cols)"
  by (induction cols) (auto split: if_splits)

lemma wf_set_column: "wf_frame df \<Longrightarrow> length vs = nrows df \<Longrightarrow> wf_frame (set_column c vs df)"
  using set_assign [of c vs "columns df"] by (auto simp: wf_frame_iff set_column_def)

lemma wf_drop_column: "wf_frame df \<Longrightarrow> wf_frame (drop_column c df)"
  by (auto simp: wf_frame_iff drop_column_def)

lemma wf_loc_set: "wf_frame df \<Longrightarrow> wf_frame (loc_set i c v df)"
  by (auto simp: wf_frame_iff loc_set_def split: if_splits)

lemma wf_loc_set_mask:
  "wf_frame df \<Longrightarrow> length msk = nrows df \<Longrightarrow> wf_frame (loc_set_mask msk c v df)"
  by (auto simp: wf_frame_iff loc_set_mask_def split: if_splits)

lemma wf_rename: "wf_frame df \<Longrightarrow> wf_frame (rename_columns df)"
  by (auto simp: wf_frame_iff rename_columns_def)

lemma wf_project: "wf_frame df \<Longrightarrow> wf_frame (project df)"
  by (auto simp: wf_frame_iff project_def)

lemma length_column_values:
  "wf_frame df \<Longrightarrow> has_column df c \<Longrightarrow> length (column_values df c) = nrows df"
  by (auto simp: wf_frame_iff has_column_def labels_def column_values_def
      split: option.splits dest!: map_of_SomeD) (metis map_of_eq_None_iff option.distinct(1) image_iff fst_conv)

lemma wf_keyword_loop: "wf_frame df \<Longrightarrow> wf_frame (keyword_loop kws s idx df)"
  by (induction kws s idx df rule: keyword_loop.induct) (auto simp: wf_loc_set)

lemma wf_interest_rows: "wf_frame df \<Longrightarrow> wf_frame (interest_rows idx vals df)"
  by (induction idx vals df rule: interest_rows.induct)
     (auto simp: Let_def wf_keyword_loop split: option.splits)

lemma wf_init_interests: "wf_frame df \<Longrightarrow> wf_frame (init_interests df)"
  by (simp add: init_interests_def interest_columns_def wf_set_column)

lemma wf_scan_free_text: "wf_frame df \<Longrightarrow> wf_frame (scan_free_text df)"
  by (auto simp: scan_free_text_def wf_drop_column wf_interest_rows split: option.splits)

lemma length_youth_mask [simp]: "length (youth_mask ys) = length ys"
  by (simp add: youth_mask_def)

lemma wf_mark_youth: "wf_frame df \<Longrightarrow> mark_youth df = Inr out \<Longrightarrow> wf_frame out"
  by (auto simp: mark_youth_def Let_def length_column_values wf_drop_column wf_loc_set_mask
      split: if_splits)

lemma wf_process_interests:
  assumes "wf_frame df" "process_interests df = Inr out"
  shows "wf_frame out"
  using assms by (auto simp: process_interests_def intro: wf_mark_youth wf_scan_free_text wf_init_interests)

lemma wf_map_cells_step: "wf_frame df \<Longrightarrow> wf_frame (map_cells_step df cm)"
  by (cases cm)
     (auto simp: map_cells_step_def Let_def has_column_set_column length_column_values
       column_values_set_column intro!: wf_set_column)

lemma wf_apply_cell_mappings: "wf_frame df \<Longrightarrow> wf_frame (apply_cell_mappings df)"
  by (simp add: apply_cell_mappings_def cell_mappings_def wf_map_cells_step)

lemma wf_clean_phones: "wf_frame df \<Longrightarrow> wf_frame (clean_phones df)"
  by (auto simp: clean_phones_def length_column_values intro!: wf_set_column)

lemma wf_format_dates_step: "wf_frame df \<Longrightarrow> wf_frame (format_dates_step ff cy df f)"
  by (auto simp: format_dates_step_def length_column_values intro!: wf_set_column)

lemma wf_format_dates: "wf_frame df \<Longrightarrow> wf_frame (format_dates ff cy df)"
  by (simp add: format_dates_def date_fields_def wf_format_dates_step)

section \<open>Properties of the interest extractor\<close>

subsection \<open>Substrings\<close>

lemma starts_with_iff: "starts_with k y \<longleftrightarrow> (\<exists>b. y = k @ b)"
  by (induction k y rule: starts_with.induct) auto

lemma str_contains_iff: "str_contains k y \<longleftrightarrow> (\<exists>a b. y = a @ k @ b)"
proof (induction y)
  case Nil
  then show ?case by auto
next
  case (Cons x xs)
  show ?case
  proof
    assume "str_contains k (x # xs)"
    then consider "starts_with k (x # xs)" | "str_contains k xs" by auto
    then show "\<exists>a b. x # xs = a @ k @ b"
    proof cases
      case 1
      then obtain b where "x # xs = k @ b" by (auto simp: starts_with_iff)
      then have "x # xs = [] @ k @ b" by simp
      then show ?thesis by blast
    next
      case 2
      with Cons obtain a b where "xs = a @ k @ b" by blast
      then have "x # xs = (x # a) @ k @ b" by simp
      then show ?thesis by blast
    qed
  next
    assume "\<exists>a b. x # xs = a @ k @ b"
    then obtain a b where ab: "x # xs = a @ k @ b" by blast
    show "str_contains k (x # xs)"
    proof (cases a)
      case Nil
      with ab have "starts_with k (x # xs)" by (auto simp: starts_with_iff)
      then show ?thesis by simp
    next
      case (Cons a1 as)
      with ab have "xs = as @ k @ b" by simp
      with Cons.IH have "str_contains k xs" by blast
      then show ?thesis by simp
    qed
  qed
qed

lemma str_contains_rev: "str_contains (rev k) (rev y) = str_contains k y"
proof -
  have "(\<exists>a b. rev y = a @ rev k @ b) \<longleftrightarrow> (\<exists>a b. y = a @ k @ b)"
  proof
    assume "\<exists>a b. rev y = a @ rev k @ b"
    then obtain a b where "rev y = a @ rev k @ b" by blast
    then have "rev (rev y) = rev (a @ rev k @ b)" by simp
    then have "y = rev b @ k @ rev a" by simp
    then show "\<exists>a b. y = a @ k @ b" by blast
  next
    assume "\<exists>a b. y = a @ k @ b"
    then obtain a b where "y = a @ k @ b" by blast
    then have "rev y = rev b @ rev k @ rev a" by simp
    then show "\<exists>a b. rev y = a @ rev k @ b" by blast
  qed
  then show ?thesis by (simp add: str_contains_iff)
qed

lemma str_contains_dropWhile:
  assumes "k \<noteq> []" "\<not> P (hd k)"
  shows "str_contains k (dropWhile P y) = str_contains k y"
proof (induction y)
  case Nil
  then show ?case by simp
next
  case (Cons x xs)
  show ?case
  proof (cases "P x")
    case True
    have ns: "\<not> starts_with k (x # xs)"
      using assms True by (cases k) auto
    have "str_contains k (dropWhile P (x # xs)) = str_contains k (dropWhile P xs)"
      using True by simp
    also have "\<dots> = str_contains k xs" by (rule Cons.IH)
    also have "\<dots> = str_contains k (x # xs)" using ns by simp
    finally show ?thesis .
  next
    case False
    then show ?thesis by simp
  qed
qed

lemma str_contains_strip:
  assumes "k \<noteq> []" "\<not> is_space (hd k)" "\<not> is_space (last k)"
  shows "str_contains k (strip y) = str_contains k y"
proof -
  have rk: "rev k \<noteq> []" "\<not> is_space (hd (rev k))" using assms by (simp_all add: hd_rev)
  have "str_contains k (strip y) = str_contains (rev k) (dropWhile is_space (rev (dropWhile is_space y)))"
    using str_contains_rev [of k "rev (dropWhile is_space (rev (dropWhile is_space y)))"]
    by (simp add: strip_def)
  also have "\<dots> = str_contains (rev k) (rev (dropWhile is_space y))"
    using rk by (rule str_contains_dropWhile)
  also have "\<dots> = str_contains k (dropWhile is_space y)" by (rule str_contains_rev)
  also have "\<dots> = str_contains k y" using assms(1,2) by (rule str_contains_dropWhile)
  finally show ?thesis .
qed


lemma is_space_lower_char: "is_space (lower_char c) = is_space c"
  by (simp add: lower_char_def is_space_def)

lemma dropWhile_lower: "dropWhile is_space (lower x) = lower (dropWhile is_space x)"
  by (induction x) (auto simp: lower_def is_space_lower_char)

lemma lower_strip: "lower (strip x) = strip (lower x)"
  by (simp add: strip_def dropWhile_lower) (simp add: lower_def rev_map dropWhile_lower [unfolded lower_def])

lemma keyword_ends_all:
  "list_all (\<lambda>(keyword, col). lower keyword \<noteq> [] \<and> \<not> is_space (hd (lower keyword)) \<and>
       \<not> is_space (last (lower keyword))) interest_keywords"
  by code_simp

lemma keyword_ends:
  "(keyword, col) \<in> set interest_keywords \<Longrightarrow>
   lower keyword \<noteq> [] \<and> \<not> is_space (hd (lower keyword)) \<and> \<not> is_space (last (lower keyword))"
  using keyword_ends_all by (auto simp: list_all_iff)

lemma keyword_in_stripped:
  assumes "(keyword, col) \<in> set interest_keywords"
  shows "str_contains (lower keyword) (lower (strip x)) = str_contains (lower keyword) (lower x)"
  using keyword_ends [OF assms] by (simp add: lower_strip str_contains_strip)

subsection \<open>The two loops, column by column\<close>

lemma map_of_map_cols:
  "map_of (map (\<lambda>(n, vs). (n, g n vs)) cols) n = map_option (g n) (map_of cols n)"
  by (induction cols) auto

lemma columns_loc_set:
  "columns (loc_set idx c v df) =
     map (\<lambda>(n, vs). (n, if n = c then vs[idx := v] else vs)) (columns df)"
  by (auto simp: loc_set_def)

lemma columns_loc_set_mask:
  "columns (loc_set_mask msk c v df) =
     map (\<lambda>(n, vs). (n, if n = c then map (\<lambda>(b, old). if b then v else old) (zip msk vs) else vs))
       (columns df)"
  by (auto simp: loc_set_mask_def)

lemma columns_keyword_loop:
  "columns (keyword_loop kws s idx df) =
     map (\<lambda>(n, vs). (n, if keyword_hits kws s n then vs[idx := Some ''YES''] else vs)) (columns df)"
proof (induction kws s idx df rule: keyword_loop.induct)
  case (1 value_str idx df)
  then show ?case by (simp add: keyword_hits_def)
next
  case (2 keyword col_name kws value_str idx df)
  then show ?case
    by (auto simp: keyword_hits_def columns_loc_set)
qed

lemma columns_interest_rows:
  "columns (interest_rows idx vals df) =
     map (\<lambda>(n, vs). (n, mark_rows n idx vals vs)) (columns df)"
proof (induction idx vals df rule: interest_rows.induct)
  case (1 idx df)
  then show ?case by simp
next
  case (2 idx "value" rest df)
  then show ?case
    by (auto simp: Let_def cell_hits_def columns_keyword_loop split: option.splits)
qed

lemma length_mark_rows [simp]: "length (mark_rows n idx vals vs) = length vs"
  by (induction n idx vals vs rule: mark_rows.induct) auto

lemma nth_mark_rows:
  "i < length vs \<Longrightarrow>
   mark_rows n idx vals vs ! i =
     (if idx \<le> i \<and> i < idx + length vals \<and> cell_hits (vals ! (i - idx)) n
      then Some ''YES'' else vs ! i)"
proof (induction n idx vals vs rule: mark_rows.induct)
  case (1 n idx vs)
  then show ?case by auto
next
  case (2 n idx v rest vs)
  show ?case
  proof (cases "i = idx")
    case True
    with 2 show ?thesis by (auto simp: nth_list_update)
  next
    case False
    have "(v # rest) ! (i - idx) = rest ! (i - Suc idx)" if "idx \<le> i"
    proof -
      from that False have "i - idx = Suc (i - Suc idx)" by arith
      then show ?thesis by simp
    qed
    with 2 False show ?thesis by (auto simp: nth_list_update)
  qed
qed

lemma keyword_hits_target:
  assumes "(keyword, col) \<in> set interest_keywords"
  shows "keyword_hits interest_keywords s col = str_contains (lower keyword) (lower s)"
  using assms by (auto simp: interest_keywords_def keyword_hits_def)

lemma cell_hits_target:
  assumes "(keyword, col) \<in> set interest_keywords"
  shows "cell_hits v col = phrase_in_cell keyword v"
proof (cases v)
  case None
  then show ?thesis by (simp add: cell_hits_def phrase_in_cell_def)
next
  case (Some x)
  have k: "lower keyword \<noteq> []" using keyword_ends [OF assms] by simp
  have eq: "str_contains (lower keyword) (lower (strip x)) = str_contains (lower keyword) (lower x)"
    using assms by (rule keyword_in_stripped)
  have "strip x = [] \<Longrightarrow> \<not> str_contains (lower keyword) (lower x)"
    using eq k by (simp add: lower_def)
  moreover have "x = [] \<Longrightarrow> strip x = []" by (simp add: strip_def)
  ultimately show ?thesis
    using Some eq by (auto simp: cell_hits_def phrase_in_cell_def keyword_hits_target [OF assms])
qed

lemma cell_hits_other: "n \<notin> snd ` set interest_keywords \<Longrightarrow> \<not> cell_hits v n"
  by (force simp: cell_hits_def keyword_hits_def list_ex_iff image_iff split: option.splits)

lemma mark_rows_other: "n \<notin> snd ` set interest_keywords \<Longrightarrow> mark_rows n idx vals vs = vs"
  by (induction n idx vals vs rule: mark_rows.induct) (auto simp: cell_hits_other)

lemma map_of_init_interests:
  "map_of (columns (init_interests df)) n =
     (if n \<in> set interest_columns then Some (replicate (nrows df) (Some ''''))
      else map_of (columns df) n)"
  by (simp add: init_interests_def interest_columns_def set_column_def map_of_assign)

lemma has_column_map_of: "has_column df n \<longleftrightarrow> map_of (columns df) n \<noteq> None"
  by (simp add: has_column_def labels_def map_of_eq_None_iff)

lemma has_column_init_interests:
  "has_column (init_interests df) n \<longleftrightarrow> n \<in> set interest_columns \<or> has_column df n"
  by (simp add: has_column_map_of map_of_init_interests)

lemma find_interest_col_init: "find_interest_col (init_interests df) = find_interest_col df"
  by (simp add: find_interest_col_def has_column_init_interests interest_columns_def)

lemma column_values_init_interests:
  "column_values (init_interests df) n =
     (if n \<in> set interest_columns then replicate (nrows df) (Some '''') else column_values df n)"
  by (simp add: column_values_def map_of_init_interests)

lemma map_of_filter_label:
  "map_of (filter (\<lambda>(n, vs). n \<noteq> c) cols) n = (if n = c then None else map_of cols n)"
  by (induction cols) auto

lemma map_of_drop_column:
  "map_of (columns (drop_column c df)) n = (if n = c then None else map_of (columns df) n)"
  by (simp add: drop_column_def map_of_filter_label)

lemma map_of_scan_free_text:
  "map_of (columns (scan_free_text d)) n =
     (case find_interest_col d of
        None \<Rightarrow> map_of (columns d) n
      | Some ic \<Rightarrow> if n = ic then None
                   else map_option (mark_rows n 0 (column_values d ic)) (map_of (columns d) n))"
  by (simp add: scan_free_text_def map_of_drop_column columns_interest_rows map_of_map_cols
      split: option.splits)

lemma map_of_mark_youth:
  assumes "mark_youth d = Inr out"
  shows "map_of (columns out) n =
     (if has_column d ''Youth Programs Interest'' then
        (if n = ''Youth Programs Interest'' then None
         else map_option
                (\<lambda>vs. if n = ''INTEREST_YOUTH''
                      then map (\<lambda>(b, old). if b then Some ''YES'' else old)
                             (zip (youth_mask (column_values d ''Youth Programs Interest'')) vs)
                      else vs)
                (map_of (columns d) n))
      else map_of (columns d) n)"
  using assms
  by (auto simp: mark_youth_def Let_def map_of_drop_column columns_loc_set_mask map_of_map_cols
      split: if_splits)

lemma target_is_interest_column:
  "(keyword, col) \<in> set interest_keywords \<Longrightarrow> col \<in> set interest_columns"
  by (auto simp: interest_keywords_def interest_columns_def)

lemma interest_columns_targets: "set interest_columns = snd ` set interest_keywords"
  by (auto simp: interest_keywords_def interest_columns_def)

lemma find_interest_col_not_target:
  "find_interest_col d = Some ic \<Longrightarrow> ic \<notin> set interest_columns \<and> has_column d ic \<and> ic \<noteq> ''Youth Programs Interest''"
  by (auto simp: find_interest_col_def interest_columns_def split: if_splits)

lemma youth_not_target: "''Youth Programs Interest'' \<notin> set interest_columns"
  by (simp add: interest_columns_def)

lemma scan_target_column:
  assumes wf: "wf_frame df" and kw: "(keyword, col) \<in> set interest_keywords"
  shows "map_of (columns (scan_free_text (init_interests df))) col =
           Some (map (\<lambda>i. if phrase_in_cell keyword (free_text_cell df i) then Some ''YES'' else Some '''')
                   [0..<nrows df])"
proof -
  have col: "col \<in> set interest_columns" using kw by (rule target_is_interest_column)
  show ?thesis
  proof (cases "find_interest_col df")
    case None
    then have "map_of (columns (scan_free_text (init_interests df))) col =
        Some (replicate (nrows df) (Some ''''))"
      using col by (simp add: map_of_scan_free_text find_interest_col_init map_of_init_interests)
    moreover have "replicate (nrows df) (Some '''') =
        map (\<lambda>i. if phrase_in_cell keyword (free_text_cell df i) then Some ''YES'' else Some '''')
                   [0..<nrows df]"
      using None by (auto simp: free_text_cell_def phrase_in_cell_def intro!: nth_equalityI)
    ultimately show ?thesis by simp
  next
    case (Some ic)
    from find_interest_col_not_target [OF Some]
    have ic: "ic \<notin> set interest_columns" "has_column df ic" by auto
    have len: "length (column_values df ic) = nrows df"
      using wf ic(2) by (rule length_column_values)
    have "map_of (columns (scan_free_text (init_interests df))) col =
        Some (mark_rows col 0 (column_values df ic) (replicate (nrows df) (Some '''')))"
      using col ic Some
      by (auto simp: map_of_scan_free_text find_interest_col_init map_of_init_interests
          column_values_init_interests)
    moreover have "mark_rows col 0 (column_values df ic) (replicate (nrows df) (Some '''')) =
        map (\<lambda>i. if phrase_in_cell keyword (free_text_cell df i) then Some ''YES'' else Some '''')
                   [0..<nrows df]"
      using Some len
      by (auto simp: nth_mark_rows cell_hits_target [OF kw] free_text_cell_def intro!: nth_equalityI)
    ultimately show ?thesis by simp
  qed
qed

lemma map_option_mark_rows_other:
  "n \<notin> set interest_columns \<Longrightarrow> map_option (mark_rows n idx vals) m = m"
  by (cases m) (simp_all add: mark_rows_other interest_columns_targets)

lemma scan_youth_column:
  "map_of (columns (scan_free_text (init_interests df))) ''Youth Programs Interest'' =
   map_of (columns df) ''Youth Programs Interest''"
  using youth_not_target
  by (auto simp: map_of_scan_free_text find_interest_col_init map_of_init_interests
      map_option_mark_rows_other
      dest: find_interest_col_not_target split: option.splits)

lemma process_interests_cell:
  assumes "wf_frame df"
      and "process_interests df = Inr out"
      and "(keyword, col) \<in> set interest_keywords"
      and "i < nrows df"
  shows "has_column out col \<and> length (column_values out col) = nrows df \<and>
         column_values out col ! i =
           (if phrase_in_cell keyword (free_text_cell df i) \<or>
               (col = ''INTEREST_YOUTH'' \<and> youth_yes df i)
            then Some ''YES'' else Some '''')"
proof -
  define d where "d = scan_free_text (init_interests df)"
  define S where "S = map (\<lambda>i. if phrase_in_cell keyword (free_text_cell df i) then Some ''YES'' else Some '''')
                   [0..<nrows df]"
  have my: "mark_youth d = Inr out" using assms(2) by (simp add: process_interests_def d_def)
  have col: "col \<in> set interest_columns" using assms(3) by (rule target_is_interest_column)
  then have colny: "col \<noteq> ''Youth Programs Interest''" using youth_not_target by auto
  have dcol: "map_of (columns d) col = Some S"
    unfolding d_def S_def using assms(1,3) by (rule scan_target_column)
  have dy: "map_of (columns d) ''Youth Programs Interest'' = map_of (columns df) ''Youth Programs Interest''"
    unfolding d_def by (rule scan_youth_column)
  then have hy: "has_column d ''Youth Programs Interest'' = has_column df ''Youth Programs Interest''"
    and cy: "column_values d ''Youth Programs Interest'' = column_values df ''Youth Programs Interest''"
    by (simp_all add: has_column_map_of column_values_def)
  show ?thesis
  proof (cases "has_column df ''Youth Programs Interest''")
    case False
    then have "map_of (columns out) col = Some S"
      using map_of_mark_youth [OF my, of col] hy dcol by simp
    then show ?thesis using False assms(4)
      by (simp add: has_column_map_of column_values_def S_def youth_yes_def)
  next
    case True
    let ?ys = "column_values df ''Youth Programs Interest''"
    have ly: "length ?ys = nrows df" using assms(1) True by (rule length_column_values)
    have mo: "map_of (columns out) col =
        Some (if col = ''INTEREST_YOUTH''
              then map (\<lambda>(b, old). if b then Some ''YES'' else old) (zip (youth_mask ?ys) S)
              else S)"
      using map_of_mark_youth [OF my, of col] hy cy dcol True colny by simp
    have yi: "youth_mask ?ys ! i = youth_yes df i"
      using True ly assms(4) by (simp add: youth_mask_def youth_yes_def)
    show ?thesis using mo ly assms(4) yi
      by (auto simp: has_column_map_of column_values_def S_def)
  qed
qed

text \<open>
  Claim C6: the four interest columns exist in the result of \<open>process_interests\<close> with a
  cell for every row, whether or not the table had a source column; the cell of the
  target column of a keyword is \<^verbatim>\<open>YES\<close> when the phrase is contained, letter case
  ignored, in the free-text interest cell of the row, and otherwise the empty string.
  (\<^verbatim>\<open>INTEREST_YOUTH\<close> is also \<^verbatim>\<open>YES\<close> on a row that says yes in
  \<^verbatim>\<open>Youth Programs Interest\<close>.) Several keywords may hit the same cell; a row with no
  interest text, and any row of a table with no source column, has all four empty.
\<close>

theorem interest_extraction:
  assumes "wf_frame df"
      and "process_interests df = Inr out"
      and "(keyword, col) \<in> set interest_keywords"
      and "i < nrows df"
  shows "has_column out col \<and> length (column_values out col) = nrows df \<and>
         column_values out col ! i =
           (if phrase_in_cell keyword (free_text_cell df i) \<or>
               (col = ''INTEREST_YOUTH'' \<and> youth_yes df i)
            then Some ''YES'' else Some '''')"
  using assms by (rule process_interests_cell)

text \<open>The cell \<^verbatim>\<open>Adult Climbing Programs, Fitness + Yoga\<close> sets \<^verbatim>\<open>INTEREST_ADULT\<close>
  and \<^verbatim>\<open>INTEREST_FITNESS\<close> and leaves the other two empty; the row below it, with no
  interest text, has all four empty.\<close>

theorem interest_extraction_witness:
  "wf_frame \<lparr>nrows = 2, columns = [(''Interest'', [Some ''Adult Climbing Programs, Fitness + Yoga'', None])]\<rparr> \<and>
   process_interests \<lparr>nrows = 2, columns = [(''Interest'', [Some ''Adult Climbing Programs, Fitness + Yoga'', None])]\<rparr> =
     Inr \<lparr>nrows = 2, columns =
       [(''INTEREST_YOUTH'', [Some '''', Some '''']), (''INTEREST_ADULT'', [Some ''YES'', Some '''']),
        (''INTEREST_OUTDOOR'', [Some '''', Some '''']), (''INTEREST_FITNESS'', [Some ''YES'', Some ''''])]\<rparr> \<and>
   (''Adult Climbing Programs'', ''INTEREST_ADULT'') \<in> set interest_keywords \<and>
   (''Fitness + Yoga'', ''INTEREST_FITNESS'') \<in> set interest_keywords \<and>
   (''Youth Climbing Programs'', ''INTEREST_YOUTH'') \<in> set interest_keywords \<and>
   (0::nat) < 2 \<and> (1::nat) < 2 \<and>
   column_values \<lparr>nrows = 2, columns =
       [(''INTEREST_YOUTH'', [Some '''', Some '''']), (''INTEREST_ADULT'', [Some ''YES'', Some '''']),
        (''INTEREST_OUTDOOR'', [Some '''', Some '''']), (''INTEREST_FITNESS'', [Some ''YES'', Some ''''])]\<rparr>
      ''INTEREST_ADULT'' ! 0 = Some ''YES'' \<and>
   column_values \<lparr>nrows = 2, columns =
       [(''INTEREST_YOUTH'', [Some '''', Some '''']), (''INTEREST_ADULT'', [Some ''YES'', Some '''']),
        (''INTEREST_OUTDOOR'', [Some '''', Some '''']), (''INTEREST_FITNESS'', [Some ''YES'', Some ''''])]\<rparr>
      ''INTEREST_FITNESS'' ! 0 = Some ''YES'' \<and>
   column_values \<lparr>nrows = 2, columns =
       [(''INTEREST_YOUTH'', [Some '''', Some '''']), (''INTEREST_ADULT'', [Some ''YES'', Some '''']),
        (''INTEREST_OUTDOOR'', [Some '''', Some '''']), (''INTEREST_FITNESS'', [Some ''YES'', Some ''''])]\<rparr>
      ''INTEREST_YOUTH'' ! 0 = Some '''' \<and>
   column_values \<lparr>nrows = 2, columns =
       [(''INTEREST_YOUTH'', [Some '''', Some '''']), (''INTEREST_ADULT'', [Some ''YES'', Some '''']),
        (''INTEREST_OUTDOOR'', [Some '''', Some '''']), (''INTEREST_FITNESS'', [Some ''YES'', Some ''''])]\<rparr>
      ''INTEREST_ADULT'' ! 1 = Some ''''"
proof -
  let ?df = "\<lparr>nrows = 2, columns = [(''Interest'', [Some ''Adult Climbing Programs, Fitness + Yoga'', None])]\<rparr>"
  let ?out = "\<lparr>nrows = 2, columns =
       [(''INTEREST_YOUTH'', [Some '''', Some '''']), (''INTEREST_ADULT'', [Some ''YES'', Some '''']),
        (''INTEREST_OUTDOOR'', [Some '''', Some '''']), (''INTEREST_FITNESS'', [Some ''YES'', Some ''''])]\<rparr>"
  have wf: "wf_frame ?df" by code_simp
  have pi: "process_interests ?df = Inr ?out" by code_simp
  have k1: "(''Adult Climbing Programs'', ''INTEREST_ADULT'') \<in> set interest_keywords"
    and k2: "(''Fitness + Yoga'', ''INTEREST_FITNESS'') \<in> set interest_keywords"
    and k3: "(''Youth Climbing Programs'', ''INTEREST_YOUTH'') \<in> set interest_keywords"
    by (simp_all add: interest_keywords_def)
  have i0: "0 < nrows ?df" and i1: "1 < nrows ?df" by simp_all
  have ny: "\<not> youth_yes ?df 0" by code_simp
  have p1: "phrase_in_cell ''Adult Climbing Programs'' (free_text_cell ?df 0)" by code_simp
  have p2: "phrase_in_cell ''Fitness + Yoga'' (free_text_cell ?df 0)" by code_simp
  have p3: "\<not> phrase_in_cell ''Youth Climbing Programs'' (free_text_cell ?df 0)" by code_simp
  have p4: "\<not> phrase_in_cell ''Adult Climbing Programs'' (free_text_cell ?df 1)" by code_simp
  have a: "column_values ?out ''INTEREST_ADULT'' ! 0 = Some ''YES''"
    using interest_extraction [OF wf pi k1 i0] p1 by simp
  have f: "column_values ?out ''INTEREST_FITNESS'' ! 0 = Some ''YES''"
    using interest_extraction [OF wf pi k2 i0] p2 by simp
  have y: "column_values ?out ''INTEREST_YOUTH'' ! 0 = Some ''''"
    using interest_extraction [OF wf pi k3 i0] p3 ny by simp
  have b: "column_values ?out ''INTEREST_ADULT'' ! 1 = Some ''''"
    using interest_extraction [OF wf pi k1 i1] p4 by simp
  show ?thesis using wf pi k1 k2 k3 a f y b by simp
qed

lemma process_interests_drops_source:
  assumes "process_interests df = Inr out" "find_interest_col df = Some ic"
  shows "\<not> has_column out ic"
proof -
  have my: "mark_youth (scan_free_text (init_interests df)) = Inr out"
    using assms(1) by (simp add: process_interests_def)
  have "map_of (columns (scan_free_text (init_interests df))) ic = None"
    using assms(2) by (simp add: map_of_scan_free_text find_interest_col_init)
  then have "map_of (columns out) ic = None"
    using map_of_mark_youth [OF my, of ic] by (simp split: if_splits)
  then show ?thesis by (simp add: has_column_map_of)
qed

text \<open>
  Claim C9, amended: \<open>process_interests\<close> scans the column named exactly
  \<^verbatim>\<open>Interest\<close>, or, when there is none, the column named exactly \<^verbatim>\<open>interest\<close>; it
  matches the keywords on that column and removes it. With neither of the two names
  there is no free-text cell to scan.
\<close>

theorem interest_column_exact_names:
  assumes "wf_frame df"
      and "process_interests df = Inr out"
      and "i < nrows df"
  shows "(has_column df ''Interest'' \<longrightarrow>
            \<not> has_column out ''Interest'' \<and> free_text_cell df i = column_values df ''Interest'' ! i) \<and>
         (\<not> has_column df ''Interest'' \<and> has_column df ''interest'' \<longrightarrow>
            \<not> has_column out ''interest'' \<and> free_text_cell df i = column_values df ''interest'' ! i) \<and>
         (\<not> has_column df ''Interest'' \<and> \<not> has_column df ''interest'' \<longrightarrow>
            free_text_cell df i = None) \<and>
         (\<forall>(keyword, col)\<in>set interest_keywords.
            column_values out col ! i =
              (if phrase_in_cell keyword (free_text_cell df i) \<or>
                  (col = ''INTEREST_YOUTH'' \<and> youth_yes df i)
               then Some ''YES'' else Some ''''))"
proof -
  have a: "has_column df ''Interest'' \<Longrightarrow> find_interest_col df = Some ''Interest''"
    by (simp add: find_interest_col_def)
  have b: "\<not> has_column df ''Interest'' \<Longrightarrow> has_column df ''interest'' \<Longrightarrow>
           find_interest_col df = Some ''interest''"
    by (simp add: find_interest_col_def)
  have c: "\<not> has_column df ''Interest'' \<Longrightarrow> \<not> has_column df ''interest'' \<Longrightarrow>
           find_interest_col df = None"
    by (simp add: find_interest_col_def)
  have d: "\<forall>(keyword, col)\<in>set interest_keywords.
            column_values out col ! i =
              (if phrase_in_cell keyword (free_text_cell df i) \<or>
                  (col = ''INTEREST_YOUTH'' \<and> youth_yes df i)
               then Some ''YES'' else Some '''')"
    using process_interests_cell [OF assms(1,2) _ assms(3)] by auto
  show ?thesis
    using a b c d process_interests_drops_source [OF assms(2)]
    by (auto simp: free_text_cell_def)
qed

text \<open>A column \<^verbatim>\<open>interest\<close> is scanned, letter case of the cell ignored, and removed.\<close>

theorem interest_column_exact_names_witness:
  "wf_frame \<lparr>nrows = 1, columns = [(''interest'', [Some ''fitness + YOGA''])]\<rparr> \<and>
   process_interests \<lparr>nrows = 1, columns = [(''interest'', [Some ''fitness + YOGA''])]\<rparr> =
     Inr \<lparr>nrows = 1, columns =
       [(''INTEREST_YOUTH'', [Some '''']), (''INTEREST_ADULT'', [Some '''']),
        (''INTEREST_OUTDOOR'', [Some '''']), (''INTEREST_FITNESS'', [Some ''YES''])]\<rparr> \<and>
   \<not> has_column \<lparr>nrows = 1, columns = [(''interest'', [Some ''fitness + YOGA''])]\<rparr> ''Interest'' \<and>
   has_column \<lparr>nrows = 1, columns = [(''interest'', [Some ''fitness + YOGA''])]\<rparr> ''interest'' \<and>
   (''Fitness + Yoga'', ''INTEREST_FITNESS'') \<in> set interest_keywords \<and>
   free_text_cell \<lparr>nrows = 1, columns = [(''interest'', [Some ''fitness + YOGA''])]\<rparr> 0 = Some ''fitness + YOGA'' \<and>
   column_values \<lparr>nrows = 1, columns =
       [(''INTEREST_YOUTH'', [Some '''']), (''INTEREST_ADULT'', [Some '''']),
        (''INTEREST_OUTDOOR'', [Some '''']), (''INTEREST_FITNESS'', [Some ''YES''])]\<rparr> ''INTEREST_FITNESS'' ! 0 = Some ''YES''"
proof -
  let ?df = "\<lparr>nrows = 1, columns = [(''interest'', [Some ''fitness + YOGA''])]\<rparr>"
  let ?out = "\<lparr>nrows = 1, columns =
       [(''INTEREST_YOUTH'', [Some '''']), (''INTEREST_ADULT'', [Some '''']),
        (''INTEREST_OUTDOOR'', [Some '''']), (''INTEREST_FITNESS'', [Some ''YES''])]\<rparr>"
  have wf: "wf_frame ?df" by code_simp
  have pi: "process_interests ?df = Inr ?out" by code_simp
  have i0: "0 < nrows ?df" by simp
  have h: "\<not> has_column ?df ''Interest''" "has_column ?df ''interest''" by code_simp+
  have k: "(''Fitness + Yoga'', ''INTEREST_FITNESS'') \<in> set interest_keywords"
    by (simp add: interest_keywords_def)
  have cv: "column_values ?df ''interest'' ! 0 = Some ''fitness + YOGA''" by code_simp
  have p: "phrase_in_cell ''Fitness + Yoga'' (Some ''fitness + YOGA'')" by code_simp
  from interest_column_exact_names [OF wf pi i0] h cv
  have ft: "free_text_cell ?df 0 = Some ''fitness + YOGA''" by simp
  from interest_column_exact_names [OF wf pi i0] k
  have "column_values ?out ''INTEREST_FITNESS'' ! 0 =
     (if phrase_in_cell ''Fitness + Yoga'' (free_text_cell ?df 0) \<or>
                  (''INTEREST_FITNESS'' = ''INTEREST_YOUTH'' \<and> youth_yes ?df 0)
               then Some ''YES'' else Some '''')" by blast
  with ft p have "column_values ?out ''INTEREST_FITNESS'' ! 0 = Some ''YES''" by simp
  with wf pi h k ft show ?thesis by blast
qed

text \<open>
  Claim C9 as stated fails for the capitalization \<^verbatim>\<open>INTEREST\<close>, which equals
  \<^verbatim>\<open>Interest\<close> when letter case is ignored: the column is neither scanned (the cell
  \<^verbatim>\<open>Fitness + Yoga\<close> leaves \<^verbatim>\<open>INTEREST_FITNESS\<close> empty) nor removed.
\<close>

theorem interest_column_capitalization_counterexample:
  "lower ''INTEREST'' = lower ''Interest'' \<and>
   process_interests \<lparr>nrows = 1, columns = [(''INTEREST'', [Some ''Fitness + Yoga''])]\<rparr> =
     Inr \<lparr>nrows = 1, columns =
       [(''INTEREST'', [Some ''Fitness + Yoga'']),
        (''INTEREST_YOUTH'', [Some '''']), (''INTEREST_ADULT'', [Some '''']),
        (''INTEREST_OUTDOOR'', [Some '''']), (''INTEREST_FITNESS'', [Some ''''])]\<rparr>"
  by code_simp


section \<open>The stages after the interest extractor, cell by cell\<close>

lemma map_other_label:
  "c \<notin> fst ` set cols \<Longrightarrow> map (\<lambda>(n, ws). (n, if n = c then g ws else ws)) cols = cols"
  by (induction cols) auto

lemma assign_existing:
  "distinct (map fst cols) \<Longrightarrow> map_of cols c = Some vs0 \<Longrightarrow>
   assign c (g vs0) cols = map (\<lambda>(n, ws). (n, if n = c then g ws else ws)) cols"
proof (induction cols)
  case Nil
  then show ?case by simp
next
  case (Cons a cols)
  obtain n ws where a: "a = (n, ws)" by (cases a)
  show ?case
  proof (cases "n = c")
    case True
    with Cons.prems a have "c \<notin> fst ` set cols" "ws = vs0" by auto
    with True a show ?thesis by (simp add: map_other_label)
  next
    case False
    with Cons a show ?thesis by simp
  qed
qed

lemma labels_map_cells [simp]: "labels (map_cells c f d) = labels d"
  by (auto simp: labels_def map_cells_def)

lemma nrows_map_cells [simp]: "nrows (map_cells c f d) = nrows d"
  by (simp add: map_cells_def)

lemma has_column_map_cells [simp]: "has_column (map_cells c f d) n = has_column d n"
  by (simp add: has_column_def)

lemma map_cells_absent: "\<not> has_column d c \<Longrightarrow> map_cells c f d = d"
  by (simp add: map_cells_def has_column_def labels_def map_other_label)

lemma set_column_map_cells:
  assumes "distinct (labels d)" "has_column d c"
  shows "set_column c (map f (column_values d c)) d = map_cells c f d"
proof -
  from assms(2) obtain vs0 where vs0: "map_of (columns d) c = Some vs0"
    by (auto simp: has_column_map_of)
  then have "column_values d c = vs0" by (simp add: column_values_def)
  moreover have "assign c (map f vs0) (columns d) =
      map (\<lambda>(n, ws). (n, if n = c then map f ws else ws)) (columns d)"
    using assms(1) vs0 unfolding labels_def by (rule assign_existing)
  ultimately show ?thesis by (simp add: set_column_def map_cells_def)
qed

lemma map_cells_comp: "map_cells c f (map_cells c g d) = map_cells c (f \<circ> g) d"
  by (simp add: map_cells_def comp_def case_prod_beta)

lemma wf_map_cells: "wf_frame d \<Longrightarrow> wf_frame (map_cells c f d)"
  by (auto simp: wf_frame_iff map_cells_def split: if_splits)

lemma column_values_map_cells:
  "column_values (map_cells c f d) n = (if n = c then map f (column_values d c) else column_values d n)"
  by (auto simp: column_values_def map_cells_def map_of_map_cols split: option.splits)

lemma map_cells_step_badge:
  assumes "distinct (labels d)"
  shows "map_cells_step d (''BADGE'', m) = map_cells ''BADGE'' (\<lambda>v. map_fallback m (fill_guest v)) d"
proof (cases "has_column d ''BADGE''")
  case False
  then show ?thesis by (simp add: map_cells_step_def map_cells_absent)
next
  case True
  have 1: "set_column ''BADGE'' (map fill_guest (column_values d ''BADGE'')) d = map_cells ''BADGE'' fill_guest d"
    using assms True by (rule set_column_map_cells)
  have 2: "set_column ''BADGE'' (map (map_fallback m) (column_values (map_cells ''BADGE'' fill_guest d) ''BADGE''))
             (map_cells ''BADGE'' fill_guest d) = map_cells ''BADGE'' (map_fallback m) (map_cells ''BADGE'' fill_guest d)"
    using assms True by (intro set_column_map_cells) simp_all
  show ?thesis using True by (simp add: map_cells_step_def Let_def 1 2 map_cells_comp comp_def)
qed

lemma map_cells_step_other:
  assumes "distinct (labels d)" "col \<noteq> ''BADGE''"
  shows "map_cells_step d (col, m) = map_cells col (map_fallback m) d"
  using assms by (cases "has_column d col") (simp_all add: map_cells_step_def map_cells_absent set_column_map_cells)

lemma apply_cell_mappings_map_cells:
  assumes "distinct (labels d)"
  shows "apply_cell_mappings d =
     map_cells ''LOCATION'' (map_fallback location_mappings)
       (map_cells ''BADGE'' (\<lambda>v. map_fallback badge_mappings (fill_guest v)) d)"
  using assms by (simp add: apply_cell_mappings_def cell_mappings_def map_cells_step_badge map_cells_step_other)

lemma clean_phones_map_cells:
  assumes "distinct (labels d)"
  shows "clean_phones d = map_cells ''SMS'' (\<lambda>v. Some (clean_phone v)) d"
  using assms by (cases "has_column d ''SMS''") (simp_all add: clean_phones_def map_cells_absent set_column_map_cells)

lemma zip_map_fst:
  "length ys = length xs \<Longrightarrow> map (\<lambda>(x, y). f x) (zip xs ys) = map f xs"
  by (induction xs ys rule: list_induct2') auto

lemma format_dates_step_map_cells:
  assumes "distinct (labels d)" "wf_frame d"
  shows "format_dates_step ff cy d date_field =
         map_cells date_field (\<lambda>v. Some (format_date ff cy v None)) d"
proof (cases "has_column d date_field")
  case False
  then show ?thesis by (simp add: format_dates_step_def map_cells_absent)
next
  case True
  have plain: "set_column date_field (map (\<lambda>v. Some (format_date ff cy v None)) (column_values d date_field)) d =
      map_cells date_field (\<lambda>v. Some (format_date ff cy v None)) d"
    using assms(1) True by (rule set_column_map_cells)
  show ?thesis
  proof (cases "date_field = ''BDAY'' \<and> has_column d ''AGE''")
    case False
    with True plain show ?thesis by (auto simp: format_dates_step_def)
  next
    case age: True
    have len: "length (column_values d ''AGE'') = length (column_values d date_field)"
      using assms(2) True age by (simp add: length_column_values)
    have "map (\<lambda>(v, a). Some (format_date ff cy v a)) (zip (column_values d date_field) (column_values d ''AGE''))
        = map (\<lambda>(v, a). Some (format_date ff cy v None)) (zip (column_values d date_field) (column_values d ''AGE''))"
    proof (rule map_cong [OF refl])
      fix z :: "cell \<times> cell"
      obtain v a where z: "z = (v, a)" by (cases z)
      have "format_date ff cy v a = format_date ff cy v None" by (rule format_date_age_independent)
      with z show "(case z of (v, a) \<Rightarrow> Some (format_date ff cy v a)) =
                   (case z of (v, a) \<Rightarrow> Some (format_date ff cy v None))" by simp
    qed
    also have "\<dots> = map (\<lambda>v. Some (format_date ff cy v None)) (column_values d date_field)"
      using len by (rule zip_map_fst)
    finally have "map (\<lambda>(v, a). Some (format_date ff cy v a)) (zip (column_values d date_field) (column_values d ''AGE''))
        = map (\<lambda>v. Some (format_date ff cy v None)) (column_values d date_field)" .
    with True age plain show ?thesis by (simp add: format_dates_step_def)
  qed
qed

lemma format_dates_map_cells:
  assumes "distinct (labels d)" "wf_frame d"
  shows "format_dates ff cy d =
     map_cells ''LAST_VISIT'' (\<lambda>v. Some (format_date ff cy v None))
       (map_cells ''BDAY'' (\<lambda>v. Some (format_date ff cy v None)) d)"
  using assms
  by (simp add: format_dates_def date_fields_def format_dates_step_map_cells wf_map_cells)

lemma stages_finalize:
  assumes "distinct (labels d)" "wf_frame d"
  shows "format_dates ff cy (clean_phones (apply_cell_mappings d)) = finalize ff cy d"
proof -
  have "format_dates ff cy (clean_phones (apply_cell_mappings d)) =
     map_cells ''LAST_VISIT'' (\<lambda>v. Some (format_date ff cy v None))
       (map_cells ''BDAY'' (\<lambda>v. Some (format_date ff cy v None))
         (map_cells ''SMS'' (\<lambda>v. Some (clean_phone v))
           (map_cells ''LOCATION'' (map_fallback location_mappings)
             (map_cells ''BADGE'' (\<lambda>v. map_fallback badge_mappings (fill_guest v)) d))))"
    using assms
    by (simp add: apply_cell_mappings_map_cells clean_phones_map_cells format_dates_map_cells
        wf_map_cells)
  also have "\<dots> = finalize ff cy d"
  proof -
    have "((\<lambda>(n, vs). (n, if n = ''LAST_VISIT'' then map (\<lambda>v. Some (format_date ff cy v None)) vs else vs)) \<circ>
           ((\<lambda>(n, vs). (n, if n = ''BDAY'' then map (\<lambda>v. Some (format_date ff cy v None)) vs else vs)) \<circ>
            ((\<lambda>(n, vs). (n, if n = ''SMS'' then map (\<lambda>v. Some (clean_phone v)) vs else vs)) \<circ>
             ((\<lambda>(n, vs). (n, if n = ''LOCATION'' then map (map_fallback location_mappings) vs else vs)) \<circ>
              (\<lambda>(n, vs). (n, if n = ''BADGE'' then map (\<lambda>v. map_fallback badge_mappings (fill_guest v)) vs else vs)))))) z
          = (\<lambda>(n, vs). (n, map (final_cell ff cy n) vs)) z" for z :: "string \<times> cell list"
      by (cases z) (simp add: final_cell_def [abs_def])
    then show ?thesis
      by (simp add: map_cells_def finalize_def cong: map_cong)
  qed
  finally show ?thesis .
qed

lemma no_value_is_key:
  "list_all (\<lambda>(k, v). map_of badge_mappings v = None \<and> v \<noteq> []) badge_mappings"
  "list_all (\<lambda>(k, v). map_of location_mappings v = None) location_mappings"
  by code_simp+

lemma map_fallback_idem:
  assumes "list_all (\<lambda>(k, v). map_of m v = None) m"
  shows "map_fallback m (map_fallback m x) = map_fallback m x"
proof -
  have "map_of m v = None" if "map_of m k = Some v" for k v
    using assms map_of_SomeD [OF that] by (auto simp: list_all_iff)
  then show ?thesis by (auto simp: map_fallback_def split: option.splits)
qed

lemma fill_guest_fixed: "v \<noteq> None \<Longrightarrow> v \<noteq> Some [] \<Longrightarrow> fill_guest v = v"
  by (cases v) (auto simp: fill_guest_def)

lemma badge_cell_not_empty:
  "map_fallback badge_mappings (fill_guest v) \<noteq> None \<and> map_fallback badge_mappings (fill_guest v) \<noteq> Some []"
proof -
  have "w \<noteq> []" if "map_of badge_mappings k = Some w" for k w
    using no_value_is_key(1) map_of_SomeD [OF that] by (auto simp: list_all_iff)
  then show ?thesis
    by (auto simp: map_fallback_def fill_guest_def Let_def split: option.splits)
qed

lemma final_cell_idem:
  assumes ff: "\<And>s t. ff s = Some t \<Longrightarrow> valid_ymd (ts_year t) (ts_month t) (ts_day t)"
  shows "final_cell ff cy n (final_cell ff cy n v) = final_cell ff cy n v"
proof -
  have b: "map_fallback badge_mappings (fill_guest (map_fallback badge_mappings (fill_guest v))) =
           map_fallback badge_mappings (fill_guest v)"
  proof -
    have "list_all (\<lambda>(k, v). map_of badge_mappings v = None) badge_mappings"
      using no_value_is_key(1) by (auto simp: list_all_iff)
    then show ?thesis
      using badge_cell_not_empty [of v] by (simp add: fill_guest_fixed map_fallback_idem)
  qed
  show ?thesis
    using b ff
    by (simp add: final_cell_def map_fallback_idem no_value_is_key(2) filter_digits_idem format_date_idem)
qed

lemma final_cell_interest: "n \<in> set interest_columns \<Longrightarrow> final_cell ff cy n v = v"
  by (auto simp: final_cell_def interest_columns_def)

section \<open>A second run\<close>

lemma distinct_interest_columns: "distinct interest_columns"
  by (simp add: interest_columns_def)

lemma distinct_init_interests: "distinct (labels d) \<Longrightarrow> distinct (labels (init_interests d))"
  by (auto simp: labels_init_interests distinct_interest_columns)

lemma distinct_scan_free_text: "distinct (labels d) \<Longrightarrow> distinct (labels (scan_free_text d))"
  by (auto simp: scan_free_text_def labels_drop_column split: option.splits)

lemma distinct_mark_youth: "distinct (labels d) \<Longrightarrow> mark_youth d = Inr out \<Longrightarrow> distinct (labels out)"
  by (auto simp: mark_youth_def Let_def labels_drop_column split: if_splits)

lemma distinct_process_interests:
  "distinct (labels d) \<Longrightarrow> process_interests d = Inr out \<Longrightarrow> distinct (labels out)"
  by (auto simp: process_interests_def intro: distinct_mark_youth distinct_scan_free_text distinct_init_interests)

lemma rename_label_valid_all:
  "list_all (\<lambda>n. rename_label n = n) (map snd header_mappings @ interest_columns)"
  by code_simp

lemma rename_label_valid: "n \<in> valid_columns \<Longrightarrow> rename_label n = n"
  using rename_label_valid_all by (auto simp: valid_columns_def list_all_iff)

lemma rename_columns_id: "set (labels d) \<subseteq> valid_columns \<Longrightarrow> rename_columns d = d"
proof -
  assume a: "set (labels d) \<subseteq> valid_columns"
  have "map (\<lambda>(c, vs). (rename_label c, vs)) (columns d) = columns d"
    using a by (intro map_idI) (auto simp: labels_def rename_label_valid)
  then show ?thesis by (simp add: rename_columns_def)
qed

lemma project_id: "set (labels d) \<subseteq> valid_columns \<Longrightarrow> project d = d"
proof -
  assume a: "set (labels d) \<subseteq> valid_columns"
  have "filter (\<lambda>(c, vs). c \<in> valid_columns) (columns d) = columns d"
    using a by (intro filter_True) (auto simp: labels_def)
  then show ?thesis by (simp add: project_def)
qed

lemma set_column_const:
  assumes "distinct (labels d)" "wf_frame d" "has_column d c" "k = nrows d"
  shows "set_column c (replicate k x) d = map_cells c (\<lambda>v. x) d"
proof -
  have "length (column_values d c) = nrows d" using assms(2,3) by (rule length_column_values)
  then have "replicate k x = map (\<lambda>v. x) (column_values d c)"
    using assms(4) by (simp add: map_replicate_const)
  then show ?thesis using set_column_map_cells [OF assms(1,3), of "\<lambda>v. x"] by simp
qed

lemma init_interests_blank:
  assumes "distinct (labels d)" "wf_frame d" "set interest_columns \<subseteq> set (labels d)"
  shows "init_interests d = blank_interests d"
proof -
  have h: "has_column d ''INTEREST_YOUTH''" "has_column d ''INTEREST_ADULT''"
    "has_column d ''INTEREST_OUTDOOR''" "has_column d ''INTEREST_FITNESS''"
    using assms(3) by (auto simp: has_column_def interest_columns_def)
  have "init_interests d =
     map_cells ''INTEREST_FITNESS'' (\<lambda>v. Some '''')
       (map_cells ''INTEREST_OUTDOOR'' (\<lambda>v. Some '''')
         (map_cells ''INTEREST_ADULT'' (\<lambda>v. Some '''')
           (map_cells ''INTEREST_YOUTH'' (\<lambda>v. Some '''') d)))"
    using assms(1,2) h
    by (simp add: init_interests_def interest_columns_def set_column_const wf_map_cells)
  also have "\<dots> = blank_interests d"
  proof -
    have "((\<lambda>(n, vs). (n, if n = ''INTEREST_FITNESS'' then map (\<lambda>v. Some '''') vs else vs)) \<circ>
           ((\<lambda>(n, vs). (n, if n = ''INTEREST_OUTDOOR'' then map (\<lambda>v. Some '''') vs else vs)) \<circ>
            ((\<lambda>(n, vs). (n, if n = ''INTEREST_ADULT'' then map (\<lambda>v. Some '''') vs else vs)) \<circ>
             (\<lambda>(n, vs). (n, if n = ''INTEREST_YOUTH'' then map (\<lambda>v. Some '''') vs else vs))))) z
          = (\<lambda>(n, vs). (n, if n \<in> set interest_columns then map (\<lambda>v. Some '''') vs else vs)) z"
      for z :: "string \<times> cell list"
      by (cases z) (simp add: interest_columns_def)
    then show ?thesis by (simp add: map_cells_def blank_interests_def cong: map_cong)
  qed
  finally show ?thesis .
qed

lemma labels_blank_interests [simp]: "labels (blank_interests d) = labels d"
  by (auto simp: labels_def blank_interests_def)

lemma nrows_blank_interests [simp]: "nrows (blank_interests d) = nrows d"
  by (simp add: blank_interests_def)

lemma wf_blank_interests: "wf_frame d \<Longrightarrow> wf_frame (blank_interests d)"
  by (auto simp: wf_frame_iff blank_interests_def split: if_splits)

lemma scan_free_text_id:
  "set (labels d) \<subseteq> valid_columns \<Longrightarrow> scan_free_text d = d"
  using not_valid_sources by (auto simp: scan_free_text_def find_interest_col_def has_column_def)

lemma mark_youth_id:
  "set (labels d) \<subseteq> valid_columns \<Longrightarrow> mark_youth d = Inr d"
  using not_valid_sources by (auto simp: mark_youth_def has_column_def)

lemma process_interests_canonical:
  assumes "distinct (labels d)" "wf_frame d" "set interest_columns \<subseteq> set (labels d)"
    "set (labels d) \<subseteq> valid_columns"
  shows "process_interests d = Inr (blank_interests d)"
  using assms by (simp add: process_interests_def init_interests_blank scan_free_text_id mark_youth_id)

lemma finalize_fixed:
  assumes ff: "\<And>s t. ff s = Some t \<Longrightarrow> valid_ymd (ts_year t) (ts_month t) (ts_day t)"
  shows "finalize ff cy (blank_interests (project (finalize ff cy c1))) =
         blank_interests (project (finalize ff cy c1))"
proof -
  let ?cols = "columns (blank_interests (project (finalize ff cy c1)))"
  have "(case z of (n, vs) \<Rightarrow> (n, map (final_cell ff cy n) vs)) = z" if "z \<in> set ?cols" for z
  proof -
    from that obtain n vs0 where
      z: "z = (n, if n \<in> set interest_columns then map (\<lambda>v. Some '''') (map (final_cell ff cy n) vs0)
                  else map (final_cell ff cy n) vs0)"
      by (auto simp: blank_interests_def project_def finalize_def)
    show ?thesis
      using final_cell_idem [where ff = ff and cy = cy and n = n, OF ff]
      by (auto simp: z final_cell_interest intro!: map_idI)
  qed
  then have "map (\<lambda>(n, vs). (n, map (final_cell ff cy n) vs)) ?cols = ?cols"
    by (intro map_idI) auto
  then show ?thesis by (simp add: finalize_def [of ff cy "blank_interests _"])
qed

lemma labels_finalize [simp]: "labels (finalize ff cy d) = labels d"
  by (auto simp: labels_def finalize_def)

lemma second_run_lemma:
  assumes wf: "wf_frame df"
      and ff: "\<And>s t. ff s = Some t \<Longrightarrow> valid_ymd (ts_year t) (ts_month t) (ts_day t)"
      and run: "clean_dataframe ff cy df = Inr out"
  shows "clean_dataframe ff cy out = Inr (blank_interests out)"
proof -
  from run obtain c1 where
    d0: "distinct (labels (rename_columns df))" and
    c1: "process_interests (rename_columns df) = Inr c1" and
    out: "out = project (format_dates ff cy (clean_phones (apply_cell_mappings c1)))"
    by (rule clean_dataframe_Inr)
  have wf1: "wf_frame c1" using wf_rename [OF wf] c1 by (rule wf_process_interests)
  have d1: "distinct (labels c1)" using d0 c1 by (rule distinct_process_interests)
  have out': "out = project (finalize ff cy c1)"
    using d1 wf1 by (simp add: out stages_finalize)
  have wfo: "wf_frame out"
    by (simp add: out wf_project wf_format_dates wf_clean_phones wf_apply_cell_mappings wf1)
  have lo: "labels out = filter (\<lambda>c. c \<in> valid_columns) (labels c1)"
    by (simp add: out labels_project)
  then have dout: "distinct (labels out)" and vout: "set (labels out) \<subseteq> valid_columns"
    using d1 by auto
  have iout: "set interest_columns \<subseteq> set (labels out)"
    using run by (rule clean_dataframe_has_interest_columns)
  have ren: "rename_columns out = out" using vout by (rule rename_columns_id)
  have pi: "process_interests out = Inr (blank_interests out)"
    using dout wfo iout vout by (rule process_interests_canonical)
  have st: "format_dates ff cy (clean_phones (apply_cell_mappings (blank_interests out))) =
            finalize ff cy (blank_interests out)"
    using dout wfo by (intro stages_finalize) (simp_all add: wf_blank_interests)
  have fx: "finalize ff cy (blank_interests out) = blank_interests out"
    unfolding out' using ff by (rule finalize_fixed)
  have pr: "project (blank_interests out) = blank_interests out"
    using vout by (intro project_id) simp
  show ?thesis
    using dout by (simp add: clean_dataframe_def ren pi st fx pr)
qed

text \<open>
  Claim C2, amended: when \<open>clean_dataframe\<close> has returned a table, running it again on
  that table returns the table with the four interest columns reset to the empty
  string: the labels, the number of rows and every other cell survive the second run
  unchanged. (The free-form parse is assumed to return dates that exist.)
\<close>

theorem second_run_blanks_interests:
  assumes "wf_frame df"
      and "\<forall>s t. to_datetime_coerce s = Some t \<longrightarrow> valid_ymd (ts_year t) (ts_month t) (ts_day t)"
      and "clean_dataframe to_datetime_coerce current_year df = Inr out"
  shows "clean_dataframe to_datetime_coerce current_year out = Inr (blank_interests out)"
  using assms by (intro second_run_lemma) auto

lemma coerce_compact_valid:
  "coerce_compact s = Some t \<Longrightarrow> valid_ymd (ts_year t) (ts_month t) (ts_day t)"
  by (auto simp: coerce_compact_def split: if_splits dest: Timestamp_Some)

text \<open>A table whose dates need all three kinds of parse; the second run changes
  nothing, there being no interest marker to lose.\<close>

theorem second_run_blanks_interests_witness:
  "wf_frame \<lparr>nrows = 3, columns =
       [(''Badge'', [Some ''Member'', None, Some ''Other'']),
        (''Last Visit Date'', [Some ''20240115'', Some ''1/2/24'', Some ''soon'']),
        (''Mobile Phone'', [Some ''555-0100'', None, Some ''''])]\<rparr> \<and>
   clean_dataframe coerce_compact 2026 \<lparr>nrows = 3, columns =
       [(''Badge'', [Some ''Member'', None, Some ''Other'']),
        (''Last Visit Date'', [Some ''20240115'', Some ''1/2/24'', Some ''soon'']),
        (''Mobile Phone'', [Some ''555-0100'', None, Some ''''])]\<rparr> =
     Inr \<lparr>nrows = 3, columns =
       [(''BADGE'', [Some ''MEMBER'', Some ''GUEST'', Some ''Other'']),
        (''LAST_VISIT'', [Some ''01-15-2024'', Some ''01-02-2024'', Some ''soon'']),
        (''SMS'', [Some ''5550100'', Some '''', Some '''']),
        (''INTEREST_YOUTH'', [Some '''', Some '''', Some '''']),
        (''INTEREST_ADULT'', [Some '''', Some '''', Some '''']),
        (''INTEREST_OUTDOOR'', [Some '''', Some '''', Some '''']),
        (''INTEREST_FITNESS'', [Some '''', Some '''', Some ''''])]\<rparr> \<and>
   clean_dataframe coerce_compact 2026 \<lparr>nrows = 3, columns =
       [(''BADGE'', [Some ''MEMBER'', Some ''GUEST'', Some ''Other'']),
        (''LAST_VISIT'', [Some ''01-15-2024'', Some ''01-02-2024'', Some ''soon'']),
        (''SMS'', [Some ''5550100'', Some '''', Some '''']),
        (''INTEREST_YOUTH'', [Some '''', Some '''', Some '''']),
        (''INTEREST_ADULT'', [Some '''', Some '''', Some '''']),
        (''INTEREST_OUTDOOR'', [Some '''', Some '''', Some '''']),
        (''INTEREST_FITNESS'', [Some '''', Some '''', Some ''''])]\<rparr> =
     Inr \<lparr>nrows = 3, columns =
       [(''BADGE'', [Some ''MEMBER'', Some ''GUEST'', Some ''Other'']),
        (''LAST_VISIT'', [Some ''01-15-2024'', Some ''01-02-2024'', Some ''soon'']),
        (''SMS'', [Some ''5550100'', Some '''', Some '''']),
        (''INTEREST_YOUTH'', [Some '''', Some '''', Some '''']),
        (''INTEREST_ADULT'', [Some '''', Some '''', Some '''']),
        (''INTEREST_OUTDOOR'', [Some '''', Some '''', Some '''']),
        (''INTEREST_FITNESS'', [Some '''', Some '''', Some ''''])]\<rparr>"
proof -
  let ?df = "\<lparr>nrows = 3, columns =
       [(''Badge'', [Some ''Member'', None, Some ''Other'']),
        (''Last Visit Date'', [Some ''20240115'', Some ''1/2/24'', Some ''soon'']),
        (''Mobile Phone'', [Some ''555-0100'', None, Some ''''])]\<rparr>"
  let ?out = "\<lparr>nrows = 3, columns =
       [(''BADGE'', [Some ''MEMBER'', Some ''GUEST'', Some ''Other'']),
        (''LAST_VISIT'', [Some ''01-15-2024'', Some ''01-02-2024'', Some ''soon'']),
        (''SMS'', [Some ''5550100'', Some '''', Some '''']),
        (''INTEREST_YOUTH'', [Some '''', Some '''', Some '''']),
        (''INTEREST_ADULT'', [Some '''', Some '''', Some '''']),
        (''INTEREST_OUTDOOR'', [Some '''', Some '''', Some '''']),
        (''INTEREST_FITNESS'', [Some '''', Some '''', Some ''''])]\<rparr>"
  have wf: "wf_frame ?df" by code_simp
  have v: "\<forall>s t. coerce_compact s = Some t \<longrightarrow> valid_ymd (ts_year t) (ts_month t) (ts_day t)"
    using coerce_compact_valid by blast
  have run: "clean_dataframe coerce_compact 2026 ?df = Inr ?out" by code_simp
  have b: "blank_interests ?out = ?out" by code_simp
  from second_run_blanks_interests [OF wf v run] b
  have "clean_dataframe coerce_compact 2026 ?out = Inr ?out" by simp
  with wf run show ?thesis by simp
qed

text \<open>
  Claim C2 as stated fails as soon as the first run sets an interest marker: the second
  run finds no source column any more and resets the marker.
\<close>

theorem not_idempotent_counterexample:
  "clean_dataframe coerce_nothing 2026 \<lparr>nrows = 1, columns = [(''Interest'', [Some ''Fitness + Yoga''])]\<rparr> =
     Inr \<lparr>nrows = 1, columns =
       [(''INTEREST_YOUTH'', [Some '''']), (''INTEREST_ADULT'', [Some '''']),
        (''INTEREST_OUTDOOR'', [Some '''']), (''INTEREST_FITNESS'', [Some ''YES''])]\<rparr> \<and>
   clean_dataframe coerce_nothing 2026 \<lparr>nrows = 1, columns =
       [(''INTEREST_YOUTH'', [Some '''']), (''INTEREST_ADULT'', [Some '''']),
        (''INTEREST_OUTDOOR'', [Some '''']), (''INTEREST_FITNESS'', [Some ''YES''])]\<rparr> =
     Inr \<lparr>nrows = 1, columns =
       [(''INTEREST_YOUTH'', [Some '''']), (''INTEREST_ADULT'', [Some '''']),
        (''INTEREST_OUTDOOR'', [Some '''']), (''INTEREST_FITNESS'', [Some ''''])]\<rparr> \<and>
   \<lparr>nrows = 1, columns =
       [(''INTEREST_YOUTH'', [Some '''']), (''INTEREST_ADULT'', [Some '''']),
        (''INTEREST_OUTDOOR'', [Some '''']), (''INTEREST_FITNESS'', [Some ''''])]\<rparr> \<noteq>
   \<lparr>nrows = 1, columns =
       [(''INTEREST_YOUTH'', [Some '''']), (''INTEREST_ADULT'', [Some '''']),
        (''INTEREST_OUTDOOR'', [Some '''']), (''INTEREST_FITNESS'', [Some ''YES''])]\<rparr>"
  by code_simp


section \<open>Rows keep their places\<close>

lemma nrows_select [simp]: "nrows (select_rows idxs d) = length idxs"
  by (simp add: select_rows_def)

lemma labels_select [simp]: "labels (select_rows idxs d) = labels d"
  by (auto simp: labels_def select_rows_def)

lemma has_column_select [simp]: "has_column (select_rows idxs d) c = has_column d c"
  by (simp add: has_column_def)

lemma wf_select: "wf_frame (select_rows idxs d)"
  by (auto simp: wf_frame_iff select_rows_def)

lemma column_values_select:
  "has_column d c \<Longrightarrow> column_values (select_rows idxs d) c = map (\<lambda>i. column_values d c ! i) idxs"
  by (auto simp: column_values_def select_rows_def map_of_map_cols has_column_map_of)

lemma select_rename: "rename_columns (select_rows idxs d) = select_rows idxs (rename_columns d)"
  by (simp add: rename_columns_def select_rows_def case_prod_beta comp_def)

lemma select_project: "project (select_rows idxs d) = select_rows idxs (project d)"
  by (simp add: project_def select_rows_def filter_map comp_def case_prod_unfold)

lemma select_drop_column: "drop_column c (select_rows idxs d) = select_rows idxs (drop_column c d)"
  by (simp add: drop_column_def select_rows_def filter_map comp_def case_prod_unfold)

lemma assign_map:
  "assign c (g vs) (map (\<lambda>(n, ws). (n, g ws)) cols) = map (\<lambda>(n, ws). (n, g ws)) (assign c vs cols)"
  by (induction cols) auto

lemma select_set_column:
  "set_column c (map (\<lambda>i. vs ! i) idxs) (select_rows idxs d) = select_rows idxs (set_column c vs d)"
  using assign_map [of c "\<lambda>ws. map (\<lambda>i. ws ! i) idxs" vs "columns d"]
  by (simp add: set_column_def select_rows_def)

lemma select_replicate:
  "\<forall>i\<in>set idxs. i < k \<Longrightarrow> map (\<lambda>i. replicate k x ! i) idxs = replicate (length idxs) x"
  by (induction idxs) auto

lemma select_set_replicate:
  assumes "\<forall>i\<in>set idxs. i < nrows d"
  shows "set_column c (replicate (length idxs) x) (select_rows idxs d) =
         select_rows idxs (set_column c (replicate (nrows d) x) d)"
  using select_set_column [of c "replicate (nrows d) x" idxs d] select_replicate [OF assms, of x]
  by simp

lemma select_init_interests:
  assumes "\<forall>i\<in>set idxs. i < nrows d"
  shows "init_interests (select_rows idxs d) = select_rows idxs (init_interests d)"
  using assms by (simp add: init_interests_def interest_columns_def select_set_replicate)

lemma select_map_cols:
  assumes "\<And>n vs. (n, vs) \<in> set (columns d) \<Longrightarrow> g n (map (\<lambda>i. vs ! i) idxs) = map (\<lambda>i. g n vs ! i) idxs"
  shows "map (\<lambda>(n, vs). (n, g n vs)) (columns (select_rows idxs d)) =
         columns (select_rows idxs (d\<lparr>columns := map (\<lambda>(n, vs). (n, g n vs)) (columns d)\<rparr>))"
  using assms by (auto simp: select_rows_def)

lemma mark_rows_zero:
  assumes "length vals = length vs"
  shows "mark_rows n 0 vals vs = map (\<lambda>i. if cell_hits (vals ! i) n then Some ''YES'' else vs ! i) [0..<length vs]"
  using assms by (auto simp: nth_mark_rows intro!: nth_equalityI)

lemma select_mark_rows:
  assumes "length vals = length vs" "\<forall>i\<in>set idxs. i < length vs"
  shows "mark_rows n 0 (map (\<lambda>i. vals ! i) idxs) (map (\<lambda>i. vs ! i) idxs) =
         map (\<lambda>i. mark_rows n 0 vals vs ! i) idxs"
proof -
  have "mark_rows n 0 (map (\<lambda>i. vals ! i) idxs) (map (\<lambda>i. vs ! i) idxs) ! j =
        map (\<lambda>i. mark_rows n 0 vals vs ! i) idxs ! j" if "j < length idxs" for j
  proof -
    have "idxs ! j < length vs" using assms(2) that by simp
    then show ?thesis using that assms(1) by (simp add: nth_mark_rows)
  qed
  then show ?thesis by (intro nth_equalityI) simp_all
qed

lemma select_interest_rows:
  assumes "wf_frame d" "length vals = nrows d" "\<forall>i\<in>set idxs. i < nrows d"
  shows "interest_rows 0 (map (\<lambda>i. vals ! i) idxs) (select_rows idxs d) =
         select_rows idxs (interest_rows 0 vals d)"
proof -
  have "map (\<lambda>(n, vs). (n, mark_rows n 0 (map (\<lambda>i. vals ! i) idxs) vs)) (columns (select_rows idxs d)) =
        columns (select_rows idxs (interest_rows 0 vals d))"
    using assms
    by (auto simp: select_rows_def columns_interest_rows wf_frame_iff select_mark_rows)
  then have "columns (interest_rows 0 (map (\<lambda>i. vals ! i) idxs) (select_rows idxs d)) =
        columns (select_rows idxs (interest_rows 0 vals d))"
    by (simp add: columns_interest_rows)
  moreover have "nrows (interest_rows 0 (map (\<lambda>i. vals ! i) idxs) (select_rows idxs d)) =
        nrows (select_rows idxs (interest_rows 0 vals d))" by simp
  ultimately show ?thesis by (intro dataframe.equality) simp_all
qed

lemma find_interest_col_select [simp]:
  "find_interest_col (select_rows idxs d) = find_interest_col d"
  by (simp add: find_interest_col_def)

lemma select_scan_free_text:
  assumes "wf_frame d" "\<forall>i\<in>set idxs. i < nrows d"
  shows "scan_free_text (select_rows idxs d) = select_rows idxs (scan_free_text d)"
proof (cases "find_interest_col d")
  case None
  then show ?thesis by (simp add: scan_free_text_def)
next
  case (Some ic)
  then have h: "has_column d ic" by (auto dest: find_interest_col_cases)
  have len: "length (column_values d ic) = nrows d" using assms(1) h by (rule length_column_values)
  show ?thesis
    using Some assms
    by (simp add: scan_free_text_def column_values_select [OF h] select_interest_rows [OF _ len]
        select_drop_column)
qed

lemma select_youth_mask:
  "\<forall>i\<in>set idxs. i < length ys \<Longrightarrow>
   youth_mask (map (\<lambda>i. ys ! i) idxs) = map (\<lambda>i. youth_mask ys ! i) idxs"
  by (simp add: youth_mask_def)

lemma select_masked:
  assumes "length msk = length vs" "\<forall>i\<in>set idxs. i < length vs"
  shows "map (\<lambda>(b, old). if b then v else old) (zip (map (\<lambda>i. msk ! i) idxs) (map (\<lambda>i. vs ! i) idxs)) =
         map (\<lambda>i. map (\<lambda>(b, old). if b then v else old) (zip msk vs) ! i) idxs"
  using assms by (auto simp: zip_map_map intro!: nth_equalityI)

lemma select_loc_set_mask:
  assumes "wf_frame d" "length msk = nrows d" "\<forall>i\<in>set idxs. i < nrows d"
  shows "loc_set_mask (map (\<lambda>i. msk ! i) idxs) c v (select_rows idxs d) =
         select_rows idxs (loc_set_mask msk c v d)"
proof -
  let ?A = "\<lambda>(n, vs). (n, if n = c then map (\<lambda>(b, old). if b then v else old) (zip (map (\<lambda>i. msk ! i) idxs) vs) else vs)"
  let ?B = "\<lambda>(n, vs). (n, if n = c then map (\<lambda>(b, old). if b then v else old) (zip msk vs) else vs)"
  let ?S = "\<lambda>(n, vs). (n, map (\<lambda>i. vs ! i) idxs)"
  have "?A (?S z) = ?S (?B z)" if "z \<in> set (columns d)" for z
  proof -
    obtain n vs where z: "z = (n, vs)" by (cases z)
    with that assms(1) have "length vs = nrows d" by (auto simp: wf_frame_iff)
    with assms(2,3) have "length msk = length vs" "\<forall>i\<in>set idxs. i < length vs" by simp_all
    then show ?thesis by (simp add: z select_masked)
  qed
  then have "map ?A (map ?S (columns d)) = map ?S (map ?B (columns d))"
    by (simp cong: map_cong)
  then have "columns (loc_set_mask (map (\<lambda>i. msk ! i) idxs) c v (select_rows idxs d)) =
        columns (select_rows idxs (loc_set_mask msk c v d))"
    by (simp add: select_rows_def columns_loc_set_mask)
  moreover have "nrows (loc_set_mask (map (\<lambda>i. msk ! i) idxs) c v (select_rows idxs d)) =
        nrows (select_rows idxs (loc_set_mask msk c v d))" by simp
  ultimately show ?thesis by (intro dataframe.equality) simp_all
qed

lemma select_mark_youth:
  assumes "wf_frame d" "\<forall>i\<in>set idxs. i < nrows d"
      and "mark_youth d = Inr c1" "mark_youth (select_rows idxs d) = Inr c1'"
  shows "c1' = select_rows idxs c1"
proof (cases "has_column d ''Youth Programs Interest''")
  case False
  with assms(3,4) show ?thesis by (simp add: mark_youth_def)
next
  case True
  let ?ys = "column_values d ''Youth Programs Interest''"
  have len: "length ?ys = nrows d" using assms(1) True by (rule length_column_values)
  have c1: "c1 = drop_column ''Youth Programs Interest''
                   (loc_set_mask (youth_mask ?ys) ''INTEREST_YOUTH'' (Some ''YES'') d)"
    using assms(3) True by (simp add: mark_youth_def Let_def split: if_splits)
  have "c1' = drop_column ''Youth Programs Interest''
                   (loc_set_mask (youth_mask (map (\<lambda>i. ?ys ! i) idxs)) ''INTEREST_YOUTH'' (Some ''YES'')
                      (select_rows idxs d))"
    using assms(4) True by (simp add: mark_youth_def Let_def column_values_select split: if_splits)
  also have "youth_mask (map (\<lambda>i. ?ys ! i) idxs) = map (\<lambda>i. youth_mask ?ys ! i) idxs"
    using assms(2) len by (simp add: select_youth_mask)
  finally show ?thesis
    using assms(1,2) len by (simp add: c1 select_loc_set_mask select_drop_column)
qed

lemma select_finalize:
  assumes "wf_frame d" "\<forall>i\<in>set idxs. i < nrows d"
  shows "finalize ff cy (select_rows idxs d) = select_rows idxs (finalize ff cy d)"
  using assms by (auto simp: finalize_def select_rows_def wf_frame_iff)

lemma wf_finalize: "wf_frame d \<Longrightarrow> wf_frame (finalize ff cy d)"
  by (auto simp: wf_frame_iff finalize_def)

lemma rows_keep_place:
  assumes wf: "wf_frame df"
      and idx: "\<forall>i\<in>set idxs. i < nrows df"
      and run: "clean_dataframe ff cy df = Inr out"
      and run': "clean_dataframe ff cy (select_rows idxs df) = Inr out'"
  shows "out' = select_rows idxs out"
proof -
  from run obtain c1 where
    d0: "distinct (labels (rename_columns df))" and
    c1: "process_interests (rename_columns df) = Inr c1" and
    out: "out = project (format_dates ff cy (clean_phones (apply_cell_mappings c1)))"
    by (rule clean_dataframe_Inr)
  from run' obtain c1' where
    c1': "process_interests (rename_columns (select_rows idxs df)) = Inr c1'" and
    out': "out' = project (format_dates ff cy (clean_phones (apply_cell_mappings c1')))"
    by (rule clean_dataframe_Inr)
  let ?r = "rename_columns df"
  have wfr: "wf_frame ?r" using wf by (rule wf_rename)
  have idr: "\<forall>i\<in>set idxs. i < nrows ?r" using idx by simp
  let ?x = "scan_free_text (init_interests ?r)"
  have wfx: "wf_frame ?x" using wfr by (simp add: wf_scan_free_text wf_init_interests)
  have "scan_free_text (init_interests (rename_columns (select_rows idxs df))) = select_rows idxs ?x"
    using wfr idr by (simp add: select_rename select_init_interests select_scan_free_text wf_init_interests)
  then have my': "mark_youth (select_rows idxs ?x) = Inr c1'"
    using c1' by (simp add: process_interests_def)
  have my: "mark_youth ?x = Inr c1" using c1 by (simp add: process_interests_def)
  have sel: "c1' = select_rows idxs c1"
    using wfx _ my my' by (rule select_mark_youth) (simp add: idx)
  have wf1: "wf_frame c1" using wfr c1 by (rule wf_process_interests)
  have d1: "distinct (labels c1)" using d0 c1 by (rule distinct_process_interests)
  have n1: "nrows c1 = nrows df" using nrows_process_interests [OF c1] by simp
  have "out' = project (finalize ff cy (select_rows idxs c1))"
    using d1 by (simp add: out' sel stages_finalize wf_select)
  also have "\<dots> = select_rows idxs (project (finalize ff cy c1))"
    using wf1 idx n1 by (simp add: select_finalize select_project)
  also have "project (finalize ff cy c1) = out"
    using d1 wf1 by (simp add: out stages_finalize)
  finally show ?thesis .
qed

text \<open>
  Claim C5: the table that \<open>clean_dataframe\<close> returns has as many rows as the input, and
  each of its columns has a cell for each of them; a table without rows is no exception.
  The rows keep their places: cleaning any selection of the input rows gives, when it
  returns, the same selection of the output rows, so that an output row is made from
  the input row at the same place and from no other.
\<close>

theorem row_count_invariance:
  assumes "wf_frame df"
      and "clean_dataframe to_datetime_coerce current_year df = Inr out"
  shows "nrows out = nrows df \<and> wf_frame out \<and>
         (\<forall>idxs out'.
            (\<forall>i\<in>set idxs. i < nrows df) \<and>
            clean_dataframe to_datetime_coerce current_year (select_rows idxs df) = Inr out' \<longrightarrow>
            out' = select_rows idxs out)"
proof -
  from assms(2) obtain c1 where
    c1: "process_interests (rename_columns df) = Inr c1" and
    out: "out = project (format_dates to_datetime_coerce current_year
                          (clean_phones (apply_cell_mappings c1)))"
    by (rule clean_dataframe_Inr)
  have "wf_frame c1" using wf_rename [OF assms(1)] c1 by (rule wf_process_interests)
  then have "wf_frame out"
    by (simp add: out wf_project wf_format_dates wf_clean_phones wf_apply_cell_mappings)
  moreover have "nrows out = nrows df"
    using nrows_process_interests [OF c1] by (simp add: out)
  ultimately show ?thesis using rows_keep_place [OF assms(1) _ assms(2)] by blast
qed

text \<open>A table of two rows, its second row alone, and a table with a header and no
  row.\<close>

theorem row_count_invariance_witness:
  "wf_frame \<lparr>nrows = 2, columns = [(''Badge'', [Some ''Staff'', None]),
                                    (''Interest'', [None, Some ''Fitness + Yoga''])]\<rparr> \<and>
   clean_dataframe coerce_nothing 2026
     \<lparr>nrows = 2, columns = [(''Badge'', [Some ''Staff'', None]),
                             (''Interest'', [None, Some ''Fitness + Yoga''])]\<rparr> =
     Inr \<lparr>nrows = 2, columns =
       [(''BADGE'', [Some ''STAFF'', Some ''GUEST'']),
        (''INTEREST_YOUTH'', [Some '''', Some '''']), (''INTEREST_ADULT'', [Some '''', Some '''']),
        (''INTEREST_OUTDOOR'', [Some '''', Some '''']),
        (''INTEREST_FITNESS'', [Some '''', Some ''YES''])]\<rparr> \<and>
   clean_dataframe coerce_nothing 2026
     (select_rows [1] \<lparr>nrows = 2, columns = [(''Badge'', [Some ''Staff'', None]),
                             (''Interest'', [None, Some ''Fitness + Yoga''])]\<rparr>) =
     Inr \<lparr>nrows = 1, columns =
       [(''BADGE'', [Some ''GUEST'']),
        (''INTEREST_YOUTH'', [Some '''']), (''INTEREST_ADULT'', [Some '''']),
        (''INTEREST_OUTDOOR'', [Some '''']),
        (''INTEREST_FITNESS'', [Some ''YES''])]\<rparr> \<and>
   \<lparr>nrows = 1, columns =
       [(''BADGE'', [Some ''GUEST'']),
        (''INTEREST_YOUTH'', [Some '''']), (''INTEREST_ADULT'', [Some '''']),
        (''INTEREST_OUTDOOR'', [Some '''']),
        (''INTEREST_FITNESS'', [Some ''YES''])]\<rparr> =
   select_rows [1] \<lparr>nrows = 2, columns =
       [(''BADGE'', [Some ''STAFF'', Some ''GUEST'']),
        (''INTEREST_YOUTH'', [Some '''', Some '''']), (''INTEREST_ADULT'', [Some '''', Some '''']),
        (''INTEREST_OUTDOOR'', [Some '''', Some '''']),
        (''INTEREST_FITNESS'', [Some '''', Some ''YES''])]\<rparr> \<and>
   wf_frame \<lparr>nrows = 0, columns = [(''Badge'', []), (''Notes'', [])]\<rparr> \<and>
   clean_dataframe coerce_nothing 2026 \<lparr>nrows = 0, columns = [(''Badge'', []), (''Notes'', [])]\<rparr> =
     Inr \<lparr>nrows = 0, columns =
       [(''BADGE'', []), (''INTEREST_YOUTH'', []), (''INTEREST_ADULT'', []),
        (''INTEREST_OUTDOOR'', []), (''INTEREST_FITNESS'', [])]\<rparr>"
proof -
  let ?df = "\<lparr>nrows = 2, columns = [(''Badge'', [Some ''Staff'', None]),
                             (''Interest'', [None, Some ''Fitness + Yoga''])]\<rparr>"
  let ?out = "\<lparr>nrows = 2, columns =
       [(''BADGE'', [Some ''STAFF'', Some ''GUEST'']),
        (''INTEREST_YOUTH'', [Some '''', Some '''']), (''INTEREST_ADULT'', [Some '''', Some '''']),
        (''INTEREST_OUTDOOR'', [Some '''', Some '''']),
        (''INTEREST_FITNESS'', [Some '''', Some ''YES''])]\<rparr>"
  let ?second = "\<lparr>nrows = 1, columns =
       [(''BADGE'', [Some ''GUEST'']),
        (''INTEREST_YOUTH'', [Some '''']), (''INTEREST_ADULT'', [Some '''']),
        (''INTEREST_OUTDOOR'', [Some '''']),
        (''INTEREST_FITNESS'', [Some ''YES''])]\<rparr>"
  let ?empty = "\<lparr>nrows = 0, columns = [(''Badge'', []), (''Notes'', [])]\<rparr>"
  let ?empty_out = "\<lparr>nrows = 0, columns =
       [(''BADGE'', []), (''INTEREST_YOUTH'', []), (''INTEREST_ADULT'', []),
        (''INTEREST_OUTDOOR'', []), (''INTEREST_FITNESS'', [])]\<rparr>"
  have wf: "wf_frame ?df" by code_simp
  have run: "clean_dataframe coerce_nothing 2026 ?df = Inr ?out" by code_simp
  have "select_rows [1] ?df =
          \<lparr>nrows = 1, columns = [(''Badge'', [None]), (''Interest'', [Some ''Fitness + Yoga''])]\<rparr>"
    by (simp add: select_rows_def)
  moreover have "clean_dataframe coerce_nothing 2026
          \<lparr>nrows = 1, columns = [(''Badge'', [None]), (''Interest'', [Some ''Fitness + Yoga''])]\<rparr> =
        Inr ?second" by code_simp
  ultimately have run1: "clean_dataframe coerce_nothing 2026 (select_rows [1] ?df) = Inr ?second"
    by simp
  have idx: "\<forall>i\<in>set [1::nat]. i < nrows ?df" by simp
  from row_count_invariance [OF wf run] idx run1
  have sel: "?second = select_rows [1] ?out" by blast
  have wf0: "wf_frame ?empty" by code_simp
  have run0: "clean_dataframe coerce_nothing 2026 ?empty = Inr ?empty_out" by code_simp
  from row_count_invariance [OF wf0 run0] have "nrows ?empty_out = nrows ?empty" by blast
  with wf run run1 sel wf0 run0 show ?thesis by blast
qed

end
